theory Spec2Isabelle
  imports Main "HOL-Library.Word" "HOL-Library.Mapping" "HOL-Library.AList_Mapping"
begin

unbundle bit_operations_syntax

section \<open>The wire reader\<close>

text \<open>
  The decoder of \<^verbatim>\<open>src/tile.ts\<close> reads its input through one \<^verbatim>\<open>BinaryReader\<close> of
  the package \<^verbatim>\<open>@protobuf-ts/runtime\<close>, which is not among the sources of the
  repository: its operations are modelled here as the package implements the wire format
  of protocol buffers. The reader holds a byte buffer that is never written and a mutable
  cursor \<^verbatim>\<open>pos\<close>, shared by the tile, its layers and their features.
  The buffer is a list of bytes; the cursor is threaded explicitly. An operation started
  with the cursor at \<open>p\<close> either returns a value and leaves the cursor at \<open>q\<close>
  (\<open>Ret v q\<close>) or throws and leaves the cursor at \<open>q\<close> (\<open>Threw e q\<close>).
\<close>

type_synonym byte = "8 word"
type_synonym buffer = "byte list"

datatype error =
    RangeError      \<comment> \<open>premature EOF: the cursor passed the end of the buffer\<close>
  | InvalidVarint   \<comment> \<open>a varint of more than ten bytes\<close>
  | IllegalTag      \<comment> \<open>field number 0 or wire type above 5\<close>
  | CantSkip        \<comment> \<open>skip of a wire type that cannot be skipped\<close>
  | DecodeError     \<comment> \<open>the text decoder rejected the bytes of a string\<close>
  | UnsafeNumber    \<comment> \<open>a 64-bit value outside the safe-integer range\<close>
  | OutOfBounds     \<comment> \<open>\<^verbatim>\<open>new Error('out of bounds')\<close> of \<^verbatim>\<open>Layer.feature\<close>\<close>
  | TypeError       \<comment> \<open>property access on \<^verbatim>\<open>undefined\<close>\<close>

datatype 'a res = Threw error nat | Ret 'a nat

definition andThen :: "'a res \<Rightarrow> ('a \<Rightarrow> nat \<Rightarrow> 'b res) \<Rightarrow> 'b res" where
  "andThen m f = (case m of Threw e q \<Rightarrow> Threw e q | Ret v q \<Rightarrow> f v q)"

text \<open>
  A read past the end of a \<^verbatim>\<open>Uint8Array\<close> gives \<^verbatim>\<open>undefined\<close>, which the bitwise
  operators of the reader coerce to 0.
\<close>

definition byteAt :: "buffer \<Rightarrow> nat \<Rightarrow> byte" where
  "byteAt buf i = (if i < length buf then buf ! i else 0)"

definition assertBounds :: "buffer \<Rightarrow> 'a \<Rightarrow> nat \<Rightarrow> 'a res" where
  "assertBounds buf v q = (if q > length buf then Threw RangeError q else Ret v q)"

text \<open>
  \<^verbatim>\<open>varint32read\<close>: the tail of a varint after its fifth byte. Up to five more bytes are
  read and dropped while the continuation bit is set.
\<close>

fun varintTail :: "buffer \<Rightarrow> nat \<Rightarrow> byte \<Rightarrow> nat \<Rightarrow> byte \<times> nat" where
  "varintTail buf 0 b p = (b, p)"
| "varintTail buf (Suc n) b p =
     (if b AND 0x80 \<noteq> 0 then varintTail buf n (byteAt buf p) (p + 1) else (b, p))"

definition uint32 :: "buffer \<Rightarrow> nat \<Rightarrow> (32 word) res" where
  "uint32 buf p =
    (let b0 = byteAt buf p;
         r0 = ucast (b0 AND 0x7F) in
     if b0 AND 0x80 = 0 then assertBounds buf r0 (p + 1) else
     let b1 = byteAt buf (p + 1);
         r1 = r0 OR push_bit 7 (ucast (b1 AND 0x7F)) in
     if b1 AND 0x80 = 0 then assertBounds buf r1 (p + 2) else
     let b2 = byteAt buf (p + 2);
         r2 = r1 OR push_bit 14 (ucast (b2 AND 0x7F)) in
     if b2 AND 0x80 = 0 then assertBounds buf r2 (p + 3) else
     let b3 = byteAt buf (p + 3);
         r3 = r2 OR push_bit 21 (ucast (b3 AND 0x7F)) in
     if b3 AND 0x80 = 0 then assertBounds buf r3 (p + 4) else
     let b4 = byteAt buf (p + 4);
         r4 = r3 OR push_bit 28 (ucast (b4 AND 0x0F));
         (b, q) = varintTail buf 5 b4 (p + 5) in
     if b AND 0x80 \<noteq> 0 then Threw InvalidVarint q else assertBounds buf r4 q)"

text \<open>\<^verbatim>\<open>sint32\<close>: zigzag decoding, \<^verbatim>\<open>(zze >>> 1) ^ -(zze & 1)\<close>, a signed 32-bit value.\<close>

definition sint32 :: "buffer \<Rightarrow> nat \<Rightarrow> int res" where
  "sint32 buf p =
     andThen (uint32 buf p) (\<lambda>zze q. Ret (sint (drop_bit 1 zze XOR - (zze AND 1))) q)"

text \<open>
  \<^verbatim>\<open>varint64read\<close>: up to ten bytes, seven payload bits each, the value cut to 64 bits
  (the library keeps it as a low and a high 32-bit half).
\<close>

fun varint64 :: "buffer \<Rightarrow> nat \<Rightarrow> nat \<Rightarrow> 64 word \<Rightarrow> nat \<Rightarrow> (64 word) res" where
  "varint64 buf 0 sh acc p = Threw InvalidVarint p"
| "varint64 buf (Suc n) sh acc p =
     (let b = byteAt buf p;
          acc' = acc OR push_bit sh (ucast (b AND 0x7F)) in
      if b AND 0x80 = 0 then assertBounds buf acc' (p + 1)
      else varint64 buf n (sh + 7) acc' (p + 1))"

definition uint64 :: "buffer \<Rightarrow> nat \<Rightarrow> (64 word) res" where
  "uint64 buf p = varint64 buf 10 0 0 p"

definition int64 :: "buffer \<Rightarrow> nat \<Rightarrow> (64 word) res" where
  "int64 buf p = varint64 buf 10 0 0 p"

text \<open>\<^verbatim>\<open>sint64\<close>: zigzag decoding on 64 bits.\<close>

definition sint64 :: "buffer \<Rightarrow> nat \<Rightarrow> (64 word) res" where
  "sint64 buf p =
     andThen (varint64 buf 10 0 0 p) (\<lambda>z q. Ret (drop_bit 1 z XOR - (z AND 1)) q)"

definition bool :: "buffer \<Rightarrow> nat \<Rightarrow> bool res" where
  "bool buf p = andThen (varint64 buf 10 0 0 p) (\<lambda>w q. Ret (w \<noteq> 0) q)"

text \<open>
  \<^verbatim>\<open>float\<close> and \<^verbatim>\<open>double\<close> advance the cursor and read through a \<^verbatim>\<open>DataView\<close>, which
  throws a \<^verbatim>\<open>RangeError\<close> outside the buffer. The value is kept as its little-endian bit
  pattern.
\<close>

definition float :: "buffer \<Rightarrow> nat \<Rightarrow> (32 word) res" where
  "float buf p =
     (if p + 4 \<le> length buf then Ret (word_rcat (rev (take 4 (drop p buf)))) (p + 4)
      else Threw RangeError (p + 4))"

definition double :: "buffer \<Rightarrow> nat \<Rightarrow> (64 word) res" where
  "double buf p =
     (if p + 8 \<le> length buf then Ret (word_rcat (rev (take 8 (drop p buf)))) (p + 8)
      else Threw RangeError (p + 8))"

definition bytes :: "buffer \<Rightarrow> nat \<Rightarrow> (byte list) res" where
  "bytes buf p =
     andThen (uint32 buf p) (\<lambda>len start.
       assertBounds buf (take (unat len) (drop start buf)) (start + unat len))"

text \<open>
  \<^verbatim>\<open>string\<close> hands the bytes to the reader's text decoder, a collaborator taken as the
  parameter \<open>td\<close>: it gives the decoded string, or \<open>None\<close> where it throws.
\<close>

definition string :: "(byte list \<Rightarrow> string option) \<Rightarrow> buffer \<Rightarrow> nat \<Rightarrow> string res" where
  "string td buf p =
     andThen (bytes buf p) (\<lambda>bs q.
       case td bs of None \<Rightarrow> Threw DecodeError q | Some s \<Rightarrow> Ret s q)"

text \<open>\<^verbatim>\<open>tag\<close>: field number \<^verbatim>\<open>tag >>> 3\<close> and wire type \<^verbatim>\<open>tag & 7\<close>.\<close>

definition tag :: "buffer \<Rightarrow> nat \<Rightarrow> (nat \<times> nat) res" where
  "tag buf p =
     andThen (uint32 buf p) (\<lambda>t q.
       let fieldNo = unat (drop_bit 3 t); wireType = unat (t AND 7) in
       if fieldNo \<le> 0 \<or> wireType > 5 then Threw IllegalTag q
       else Ret (fieldNo, wireType) q)"

text \<open>\<^verbatim>\<open>skip\<close>, wire type 0: \<^verbatim>\<open>while (this.buf[this.pos++] & 0x80) {}\<close>.\<close>

function skipVarint :: "buffer \<Rightarrow> nat \<Rightarrow> nat" where
  "skipVarint buf p = (if byteAt buf p AND 0x80 \<noteq> 0 then skipVarint buf (p + 1) else p + 1)"
  by pat_completeness auto
termination
  by (relation "measure (\<lambda>(buf, p). length buf - p)") (auto simp: byteAt_def split: if_splits)

declare skipVarint.simps [simp del]

lemma andThen_cong [fundef_cong]:
  "m = m' \<Longrightarrow> (\<And>v q. m' = Ret v q \<Longrightarrow> f v q = f' v q) \<Longrightarrow> andThen m f = andThen m' f'"
  by (auto simp: andThen_def split: res.splits)

lemma andThen_Ret: "andThen m f = Ret v q \<longleftrightarrow> (\<exists>u r. m = Ret u r \<and> f u r = Ret v q)"
  by (auto simp: andThen_def split: res.splits)

lemma assertBounds_Ret:
  "assertBounds buf v q = Ret u r \<longleftrightarrow> (u = v \<and> r = q \<and> q \<le> length buf)"
  by (auto simp: assertBounds_def)

lemma varintTail_le: "varintTail buf n b p = (b', q) \<Longrightarrow> p \<le> q"
  by (induction buf n b p rule: varintTail.induct) (auto split: if_splits)

lemma uint32_adv: "uint32 buf p = Ret v q \<Longrightarrow> p < q \<and> q \<le> length buf"
  unfolding uint32_def Let_def
  by (auto simp: assertBounds_Ret split: if_splits prod.splits dest: varintTail_le)

lemma tag_adv: "tag buf p = Ret v q \<Longrightarrow> p < q \<and> q \<le> length buf"
  by (auto simp: tag_def andThen_Ret Let_def split: if_splits dest: uint32_adv)

lemma skipVarint_adv: "p < skipVarint buf p"
  by (induction buf p rule: skipVarint.induct) (metis skipVarint.simps less_add_one less_trans)

text \<open>
  \<^verbatim>\<open>skip\<close>: over a varint, a fixed 64-bit or 32-bit value, a length-delimited payload, or
  a group, whose fields are skipped one by one up to the end-group tag (wire type 4);
  the bounds are asserted after the switch.
\<close>

function (domintros) skip :: "buffer \<Rightarrow> nat \<Rightarrow> nat \<Rightarrow> unit res"
  and skipGroup :: "buffer \<Rightarrow> nat \<Rightarrow> unit res" where
  "skip buf wireType p =
     (if wireType = 0 then assertBounds buf () (skipVarint buf p)
      else if wireType = 1 then assertBounds buf () (p + 8)
      else if wireType = 5 then assertBounds buf () (p + 4)
      else if wireType = 2 then
        andThen (uint32 buf p) (\<lambda>len q. assertBounds buf () (q + unat len))
      else if wireType = 3 then
        andThen (skipGroup buf p) (\<lambda>_ q. assertBounds buf () q)
      else Threw CantSkip p)"
| "skipGroup buf p =
     andThen (tag buf p) (\<lambda>ft q. case ft of (fieldNo, t) \<Rightarrow>
       if t \<noteq> 4 then andThen (skip buf t q) (\<lambda>_ q'. skipGroup buf q')
       else Ret () q)"
  by pat_completeness auto

lemma skip_adv_partial:
  "skip_skipGroup_dom (Inl (buf, wireType, p)) \<Longrightarrow> skip buf wireType p = Ret u q \<Longrightarrow> p < q"
  "skip_skipGroup_dom (Inr (buf, p)) \<Longrightarrow> skipGroup buf p = Ret u' q' \<Longrightarrow> p < q'"
proof (induction buf wireType p and buf p arbitrary: u q and u' q' rule: skip_skipGroup.pinduct)
  case (1 buf wireType p)
  then show ?case
    by (auto simp: skip.psimps andThen_Ret assertBounds_Ret skipVarint_adv split: if_splits dest!: uint32_adv)
next
  case (2 buf p)
  from 2(4) 2(1) obtain f t r where t: "tag buf p = Ret (f, t) r"
    and rest: "(if t \<noteq> 4 then andThen (skip buf t r) (\<lambda>_ q'. skipGroup buf q') else Ret () r) = Ret u' q'"
    by (auto simp: skipGroup.psimps andThen_Ret)
  from t have pr: "p < r" by (auto dest: tag_adv)
  show ?case
  proof (cases "t = 4")
    case True with rest pr show ?thesis by simp
  next
    case False
    with rest obtain r' where s: "skip buf t r = Ret () r'" and g: "skipGroup buf r' = Ret u' q'"
      by (auto simp: andThen_Ret)
    from 2(2)[OF t refl False s] have "r < r'" .
    moreover from 2(3)[OF t refl False s g] have "r' < q'" .
    ultimately show ?thesis using pr by simp
  qed
qed

termination skip
proof (relation "measure (\<lambda>x. case x of Inl (buf, wt, p) \<Rightarrow> 2 * (length buf + 1 - p) + 1
                                     | Inr (buf, p) \<Rightarrow> 2 * (length buf + 1 - p))", simp_all)
  fix buf p v q
  assume "tag buf p = Ret v q"
  then have "p < q \<and> q \<le> length buf" by (rule tag_adv)
  then show "Suc (2 * (Suc (length buf) - q)) < 2 * (Suc (length buf) - p)" by arith
next
  fix buf p v q y qa
  assume "tag buf p = Ret v q" "skip buf y q = Ret () qa" "skip_skipGroup_dom (Inl (buf, y, q))"
  then have "p < q \<and> q \<le> length buf \<and> q < qa"
    by (auto dest: tag_adv skip_adv_partial(1))
  then show "Suc (length buf) - qa < Suc (length buf) - p" by arith
qed

declare skip.simps [simp del] skipGroup.simps [simp del]

lemma skip_adv: "skip buf wireType p = Ret u q \<Longrightarrow> p < q"
  and skipGroup_adv: "skipGroup buf p = Ret u' q' \<Longrightarrow> p < q'"
proof (induction buf wireType p and buf p arbitrary: u q and u' q' rule: skip_skipGroup.induct)
  case (1 buf wireType p)
  then show ?case
    by (auto simp: skip.simps[of buf wireType p] andThen_Ret assertBounds_Ret skipVarint_adv
             split: if_splits dest!: uint32_adv)
next
  case (2 buf p)
  from 2(3) obtain f t r where t: "tag buf p = Ret (f, t) r"
    and rest: "(if t \<noteq> 4 then andThen (skip buf t r) (\<lambda>_ q'. skipGroup buf q') else Ret () r) = Ret u' q'"
    by (auto simp: skipGroup.simps[of buf p] andThen_Ret)
  from t have pr: "p < r" by (auto dest: tag_adv)
  show ?case
  proof (cases "t = 4")
    case True with rest pr show ?thesis by simp
  next
    case False
    with rest obtain r' where s: "skip buf t r = Ret () r'" and g: "skipGroup buf r' = Ret u' q'"
      by (auto simp: andThen_Ret)
    from 2(1)[OF t refl False s] have "r < r'" .
    moreover from 2(2)[OF t refl False s g] have "r' < q'" .
    ultimately show ?thesis using pr by simp
  qed
qed

lemma skip_bound: "skip buf wireType p = Ret u q \<Longrightarrow> q \<le> length buf"
  by (auto simp: skip.simps[of buf wireType p] andThen_Ret assertBounds_Ret split: if_splits)

lemma sint32_adv: "sint32 buf p = Ret v q \<Longrightarrow> p < q \<and> q \<le> length buf"
  by (auto simp: sint32_def andThen_Ret dest: uint32_adv)

lemma varint64_adv: "varint64 buf n sh acc p = Ret v q \<Longrightarrow> p < q \<and> q \<le> length buf"
proof (induction n arbitrary: sh acc p)
  case 0
  then show ?case by simp
next
  case (Suc n)
  show ?case
  proof (cases "byteAt buf p AND 0x80 = 0")
    case True
    with Suc.prems show ?thesis by (simp add: Let_def assertBounds_Ret)
  next
    case False
    with Suc.prems have "varint64 buf n (sh + 7)
        (acc OR push_bit sh (ucast (byteAt buf p AND 0x7F))) (p + 1) = Ret v q"
      by (simp add: Let_def)
    from Suc.IH[OF this] show ?thesis by simp
  qed
qed

lemma int64_adv: "int64 buf p = Ret v q \<Longrightarrow> p < q \<and> q \<le> length buf"
  unfolding int64_def by (rule varint64_adv)

lemma uint64_adv: "uint64 buf p = Ret v q \<Longrightarrow> p < q \<and> q \<le> length buf"
  unfolding uint64_def by (rule varint64_adv)

lemma sint64_adv: "sint64 buf p = Ret v q \<Longrightarrow> p < q \<and> q \<le> length buf"
  by (auto simp: sint64_def andThen_Ret dest: varint64_adv)

lemma bool_adv: "bool buf p = Ret v q \<Longrightarrow> p < q \<and> q \<le> length buf"
  by (auto simp: bool_def andThen_Ret dest: varint64_adv)

lemma float_adv: "float buf p = Ret v q \<Longrightarrow> p < q \<and> q \<le> length buf"
  by (auto simp: float_def split: if_splits)

lemma double_adv: "double buf p = Ret v q \<Longrightarrow> p < q \<and> q \<le> length buf"
  by (auto simp: double_def split: if_splits)

lemma bytes_adv: "bytes buf p = Ret v q \<Longrightarrow> p < q \<and> q \<le> length buf"
  by (auto simp: bytes_def andThen_Ret assertBounds_Ret dest: uint32_adv)

lemma string_adv: "string td buf p = Ret v q \<Longrightarrow> p < q \<and> q \<le> length buf"
  by (auto simp: string_def andThen_Ret split: option.splits dest: bytes_adv)

section \<open>Property values\<close>

text \<open>
  \<^verbatim>\<open>PropValues = string | number | boolean | bigint | null\<close>. A float or a double is kept
  as its bit pattern, a number or a bigint that comes from a 64-bit integer as that
  integer. \<open>VUndefined\<close> is what reading an array past its end gives.
\<close>

datatype PropValues =
    VString string
  | VFloat "32 word"
  | VDouble "64 word"
  | VNumber int
  | VBigInt int
  | VBool bool
  | VNull
  | VUndefined

datatype LongType = LNumber | LString | LBigint

text \<open>The decimal text of an integer, as \<^verbatim>\<open>toString()\<close> of a 64-bit value gives it.\<close>

function decimalNat :: "nat \<Rightarrow> string" where
  "decimalNat n =
     (if n < 10 then [char_of (48 + n)]
      else decimalNat (n div 10) @ [char_of (48 + n mod 10)])"
  by pat_completeness auto
termination
  by (relation "measure id") auto

declare decimalNat.simps [simp del]

definition decimal :: "int \<Rightarrow> string" where
  "decimal i = (if i < 0 then CHR ''-'' # decimalNat (nat (- i)) else decimalNat (nat i))"

text \<open>
  Modelled from the spec: \<^verbatim>\<open>toNumber()\<close> of the reader package's 64-bit integers, which is
  not part of the sources. The conversion to a number fails when the value is outside the
  safe-integer range, and gives the value otherwise.
\<close>

definition toNumber :: "int \<Rightarrow> nat \<Rightarrow> PropValues res" where
  "toNumber long q =
     (if - (2 ^ 53 - 1) \<le> long \<and> long \<le> 2 ^ 53 - 1 then Ret (VNumber long) q
      else Threw UnsafeNumber q)"

definition convertLong :: "LongType \<Rightarrow> int \<Rightarrow> nat \<Rightarrow> PropValues res" where
  "convertLong longType long q =
     (case longType of
        LNumber \<Rightarrow> toNumber long q
      | LString \<Rightarrow> Ret (VString (decimal long)) q
      | LBigint \<Rightarrow> Ret (VBigInt long) q)"

text \<open>
  \<^verbatim>\<open>Layer.decodeValue\<close>. \<open>valueField\<close> is the chain of branches on the field number
  inside the loop; \<^verbatim>\<open>int64\<close> and \<^verbatim>\<open>sint64\<close> give signed values, \<^verbatim>\<open>uint64\<close> an unsigned one.
\<close>

definition valueField ::
  "(byte list \<Rightarrow> string option) \<Rightarrow> LongType \<Rightarrow> buffer \<Rightarrow> nat \<Rightarrow> nat \<Rightarrow> PropValues res" where
  "valueField td longType buf fieldId q =
     (if fieldId = 1 then andThen (string td buf q) (\<lambda>s q'. Ret (VString s) q')
      else if fieldId = 2 then andThen (float buf q) (\<lambda>w q'. Ret (VFloat w) q')
      else if fieldId = 3 then andThen (double buf q) (\<lambda>w q'. Ret (VDouble w) q')
      else if fieldId = 4 then andThen (int64 buf q) (\<lambda>w q'. convertLong longType (sint w) q')
      else if fieldId = 5 then andThen (uint64 buf q) (\<lambda>w q'. convertLong longType (uint w) q')
      else if fieldId = 6 then andThen (sint64 buf q) (\<lambda>w q'. convertLong longType (sint w) q')
      else if fieldId = 7 then andThen (bool buf q) (\<lambda>b q'. Ret (VBool b) q')
      else Ret VNull q)"

lemma convertLong_pos: "convertLong longType long q = Ret v q' \<Longrightarrow> q' = q"
  by (auto simp: convertLong_def toNumber_def split: LongType.splits if_splits)

lemma valueField_le: "valueField td longType buf fieldId q = Ret v q' \<Longrightarrow> q \<le> q'"
  by (auto simp: valueField_def andThen_Ret split: if_splits
           dest!: string_adv float_adv double_adv int64_adv uint64_adv sint64_adv bool_adv
                  convertLong_pos)

function decodeValueLoop ::
  "(byte list \<Rightarrow> string option) \<Rightarrow> LongType \<Rightarrow> buffer \<Rightarrow> nat \<Rightarrow> PropValues \<Rightarrow> nat
     \<Rightarrow> PropValues res" where
  "decodeValueLoop td longType buf end value p =
     (if p < end then
        andThen (tag buf p) (\<lambda>ft q.
          andThen (valueField td longType buf (fst ft) q) (\<lambda>value' q'.
            decodeValueLoop td longType buf end value' q'))
      else Ret value p)"
  by pat_completeness auto
termination
proof (relation "measure (\<lambda>(td, longType, buf, end, value, p). end - p)", simp_all)
  fix td longType buf "end" p ft q value' q'
  assume "p < end" "tag buf p = Ret ft q" "valueField td longType buf (fst ft) q = Ret value' q'"
  then have "p < q \<and> q \<le> q'" by (auto dest: tag_adv valueField_le)
  with \<open>p < end\<close> show "end - q' < end - p" by arith
qed

declare decodeValueLoop.simps [simp del]

definition decodeValue ::
  "(byte list \<Rightarrow> string option) \<Rightarrow> LongType \<Rightarrow> buffer \<Rightarrow> nat \<Rightarrow> PropValues res" where
  "decodeValue td longType buf p =
     andThen (uint32 buf p) (\<lambda>len q. decodeValueLoop td longType buf (unat len + q) VNull q)"

lemma decodeValueLoop_le:
  "decodeValueLoop td longType buf end value p = Ret v q \<Longrightarrow> p \<le> q"
proof (induction td longType buf "end" "value" p rule: decodeValueLoop.induct)
  case (1 td longType buf "end" "value" p)
  show ?case
  proof (cases "p < end")
    case True
    with 1(2) obtain ft r value' r' where t: "tag buf p = Ret ft r"
      and f: "valueField td longType buf (fst ft) r = Ret value' r'"
      and l: "decodeValueLoop td longType buf end value' r' = Ret v q"
      by (auto simp: decodeValueLoop.simps[of td longType buf "end" "value" p] andThen_Ret)
    from 1(1)[OF True t f l] t f show ?thesis by (auto dest!: tag_adv valueField_le)
  next
    case False
    with 1(2) show ?thesis by (simp add: decodeValueLoop.simps[of td longType buf "end" "value" p])
  qed
qed

lemma decodeValue_adv: "decodeValue td longType buf p = Ret v q \<Longrightarrow> p < q"
  by (auto simp: decodeValue_def andThen_Ret dest!: uint32_adv decodeValueLoop_le)

section \<open>Layers\<close>

text \<open>
  The fields of a \<^verbatim>\<open>Layer\<close>. \<open>length_L\<close> is the field \<^verbatim>\<open>length\<close>, \<open>values_L\<close> the
  field \<^verbatim>\<open>values\<close>; the reader and the long type are passed to the functions.
\<close>

record Layer =
  name :: string
  version :: nat
  extent :: nat
  length_L :: nat
  featureOffsets :: "nat list"
  keys :: "string list"
  values_L :: "PropValues list"

text \<open>
  The body of the constructor's loop after the tag is read: the branches on the field
  number. A field with any other number is left where it is.
\<close>

definition layerField ::
  "(byte list \<Rightarrow> string option) \<Rightarrow> LongType \<Rightarrow> buffer \<Rightarrow> Layer \<Rightarrow> nat \<Rightarrow> nat \<Rightarrow> nat
     \<Rightarrow> Layer res" where
  "layerField td longType buf layer fieldId wireType q =
     (if fieldId = 15 then
        andThen (uint32 buf q) (\<lambda>v q'. Ret (layer\<lparr>version := unat v\<rparr>) q')
      else if fieldId = 1 then
        andThen (string td buf q) (\<lambda>s q'. Ret (layer\<lparr>name := s\<rparr>) q')
      else if fieldId = 5 then
        andThen (uint32 buf q) (\<lambda>v q'. Ret (layer\<lparr>extent := unat v\<rparr>) q')
      else if fieldId = 2 then
        (let layer' = layer\<lparr>featureOffsets := featureOffsets layer @ [q]\<rparr> in
         andThen (skip buf wireType q) (\<lambda>_ q'. Ret layer' q'))
      else if fieldId = 3 then
        andThen (string td buf q) (\<lambda>s q'. Ret (layer\<lparr>keys := keys layer @ [s]\<rparr>) q')
      else if fieldId = 4 then
        andThen (decodeValue td longType buf q)
          (\<lambda>v q'. Ret (layer\<lparr>values_L := values_L layer @ [v]\<rparr>) q')
      else Ret layer q)"

lemma layerField_le:
  "layerField td longType buf layer fieldId wireType q = Ret layer' q' \<Longrightarrow> q \<le> q'"
  by (auto simp: layerField_def andThen_Ret Let_def split: if_splits
           dest!: uint32_adv string_adv skip_adv decodeValue_adv)

function layerLoop ::
  "(byte list \<Rightarrow> string option) \<Rightarrow> LongType \<Rightarrow> buffer \<Rightarrow> nat \<Rightarrow> Layer \<Rightarrow> nat \<Rightarrow> Layer res"
  where
  "layerLoop td longType buf end layer p =
     (if p < end then
        andThen (tag buf p) (\<lambda>ft q.
          andThen (layerField td longType buf layer (fst ft) (snd ft) q) (\<lambda>layer' q'.
            layerLoop td longType buf end layer' q'))
      else Ret layer p)"
  by pat_completeness auto
termination
proof (relation "measure (\<lambda>(td, longType, buf, end, layer, p). end - p)", simp_all)
  fix td longType buf "end" layer p ft q layer' q'
  assume "p < end" "tag buf p = Ret ft q"
    "layerField td longType buf layer (fst ft) (snd ft) q = Ret layer' q'"
  then have "p < q \<and> q \<le> q'" by (auto dest: tag_adv layerField_le)
  with \<open>p < end\<close> show "end - q' < end - p" by arith
qed

declare layerLoop.simps [simp del]

text \<open>The constructor \<^verbatim>\<open>new Layer(reader, end, longType)\<close>, the reader's cursor at \<open>p\<close>.\<close>

definition newLayer ::
  "(byte list \<Rightarrow> string option) \<Rightarrow> LongType \<Rightarrow> buffer \<Rightarrow> nat \<Rightarrow> nat \<Rightarrow> Layer res" where
  "newLayer td longType buf end p =
     andThen
       (layerLoop td longType buf end
          \<lparr>name = [], version = 0, extent = 0, length_L = 0,
           featureOffsets = [], keys = [], values_L = []\<rparr> p)
       (\<lambda>layer q. Ret (layer\<lparr>length_L := length (featureOffsets layer)\<rparr>) q)"

lemma layerLoop_le: "layerLoop td longType buf end layer p = Ret layer' q \<Longrightarrow> p \<le> q"
proof (induction td longType buf "end" layer p rule: layerLoop.induct)
  case (1 td longType buf "end" layer p)
  show ?case
  proof (cases "p < end")
    case True
    with 1(2) obtain ft r l r' where t: "tag buf p = Ret ft r"
      and f: "layerField td longType buf layer (fst ft) (snd ft) r = Ret l r'"
      and l: "layerLoop td longType buf end l r' = Ret layer' q"
      by (auto simp: layerLoop.simps[of td longType buf "end" layer p] andThen_Ret)
    from 1(1)[OF True t f l] t f show ?thesis by (auto dest!: tag_adv layerField_le)
  next
    case False
    with 1(2) show ?thesis by (simp add: layerLoop.simps[of td longType buf "end" layer p])
  qed
qed

lemma newLayer_le: "newLayer td longType buf end p = Ret layer q \<Longrightarrow> p \<le> q"
  by (auto simp: newLayer_def andThen_Ret dest: layerLoop_le)

section \<open>The tile\<close>

text \<open>
  \<^verbatim>\<open>layers\<close> is a plain object used as a dictionary. An assignment to the key
  \<^verbatim>\<open>__proto__\<close> of a plain object stores no entry: it makes the assigned object the
  prototype. \<open>layersProto\<close> is the layer so assigned last, if any.
\<close>

record VectorTile =
  layers :: "(string, Layer) mapping"
  layersProto :: "Layer option"

definition setLayer :: "VectorTile \<Rightarrow> string \<Rightarrow> Layer \<Rightarrow> VectorTile" where
  "setLayer tile key layer =
     (if key = ''__proto__'' then tile\<lparr>layersProto := Some layer\<rparr>
      else tile\<lparr>layers := Mapping.update key layer (layers tile)\<rparr>)"

function tileLoop ::
  "(byte list \<Rightarrow> string option) \<Rightarrow> LongType \<Rightarrow> buffer \<Rightarrow> nat \<Rightarrow> VectorTile \<Rightarrow> nat
     \<Rightarrow> VectorTile res" where
  "tileLoop td longType buf end tile p =
     (if p < end then
        andThen (uint32 buf p) (\<lambda>_ q.
          andThen (uint32 buf q) (\<lambda>len q'.
            andThen (newLayer td longType buf (unat len + q') q') (\<lambda>layer q''.
              tileLoop td longType buf end
                (if length_L layer \<noteq> 0 then setLayer tile (name layer) layer else tile) q'')))
      else Ret tile p)"
  by pat_completeness auto
termination
proof (relation "measure (\<lambda>(td, longType, buf, end, tile, p). end - p)", simp_all)
  fix td longType buf "end" p v q len q' layer q''
  assume "p < end" "uint32 buf p = Ret v q" "uint32 buf q = Ret len q'"
    "newLayer td longType buf (unat len + q') q' = Ret layer q''"
  then have "p < q \<and> q < q' \<and> q' \<le> q''" by (auto dest: uint32_adv newLayer_le)
  with \<open>p < end\<close> show "end - q'' < end - p" by arith
qed

declare tileLoop.simps [simp del]

text \<open>The constructor \<^verbatim>\<open>new VectorTile(bytes, longType)\<close>.\<close>

definition newVectorTile ::
  "(byte list \<Rightarrow> string option) \<Rightarrow> LongType \<Rightarrow> buffer \<Rightarrow> VectorTile res" where
  "newVectorTile td longType buf =
     tileLoop td longType buf (length buf) \<lparr>layers = Mapping.empty, layersProto = None\<rparr> 0"

section \<open>Features\<close>

text \<open>
  \<^verbatim>\<open>properties\<close> is a plain object used as a dictionary. An assignment to its key
  \<^verbatim>\<open>__proto__\<close> goes to the prototype setter and stores no entry: \<^verbatim>\<open>null\<close> removes the
  prototype (and the setter with it, so that a later assignment stores an entry), any
  other value of \<^verbatim>\<open>PropValues\<close> is ignored.
\<close>

record Properties =
  entries :: "(string, PropValues) mapping"
  nullProto :: bool

definition setProperty :: "Properties \<Rightarrow> string \<Rightarrow> PropValues \<Rightarrow> Properties" where
  "setProperty props key v =
     (if key = ''__proto__'' \<and> \<not> nullProto props then
        (if v = VNull then props\<lparr>nullProto := True\<rparr> else props)
      else props\<lparr>entries := Mapping.update key v (entries props)\<rparr>)"

text \<open>
  \<^verbatim>\<open>keys[i]\<close> and \<^verbatim>\<open>values[i]\<close>: an index past the end of the array gives
  \<^verbatim>\<open>undefined\<close>, which as a property key is the string \<^verbatim>\<open>undefined\<close>.
\<close>

definition keyAt :: "string list \<Rightarrow> nat \<Rightarrow> string" where
  "keyAt ks i = (if i < length ks then ks ! i else ''undefined'')"

definition valueAt :: "PropValues list \<Rightarrow> nat \<Rightarrow> PropValues" where
  "valueAt vs i = (if i < length vs then vs ! i else VUndefined)"

text \<open>The geometry types, \<^verbatim>\<open>const enum FeatureType\<close>, and the commands.\<close>

definition UNKNOWN :: nat where "UNKNOWN = 0"
definition POINT :: nat where "POINT = 1"
definition LINESTRING :: nat where "LINESTRING = 2"
definition POLYGON :: nat where "POLYGON = 3"

definition MoveTo :: nat where "MoveTo = 1"
definition LineTo :: nat where "LineTo = 2"
definition ClosePath :: nat where "ClosePath = 7"

text \<open>
  The fields of a \<^verbatim>\<open>Feature\<close>: \<open>id_F\<close> is \<^verbatim>\<open>id\<close>, \<open>type_F\<close> is \<^verbatim>\<open>type\<close> (the number
  read, whatever it is), \<open>extent_F\<close> is \<^verbatim>\<open>extent\<close>.
\<close>

record Feature =
  id_F :: "string option"
  type_F :: nat
  properties :: Properties
  geometryOffset :: nat
  extent_F :: nat

text \<open>The loop over the packed pairs of a key index and a value index (field 2).\<close>

function propertiesLoop ::
  "buffer \<Rightarrow> string list \<Rightarrow> PropValues list \<Rightarrow> nat \<Rightarrow> Properties \<Rightarrow> nat \<Rightarrow> Properties res"
  where
  "propertiesLoop buf ks vs end props p =
     (if p < end then
        andThen (uint32 buf p) (\<lambda>ki q.
          andThen (uint32 buf q) (\<lambda>vi q'.
            propertiesLoop buf ks vs end
              (setProperty props (keyAt ks (unat ki)) (valueAt vs (unat vi))) q'))
      else Ret props p)"
  by pat_completeness auto
termination
proof (relation "measure (\<lambda>(buf, ks, vs, end, props, p). end - p)", simp_all)
  fix buf "end" p ki q vi q'
  assume "p < end" "uint32 buf p = Ret ki q" "uint32 buf q = Ret vi q'"
  then have "p < q \<and> q < q'" by (auto dest: uint32_adv)
  with \<open>p < end\<close> show "end - q' < end - p" by arith
qed

declare propertiesLoop.simps [simp del]

lemma propertiesLoop_le: "propertiesLoop buf ks vs end props p = Ret props' q \<Longrightarrow> p \<le> q"
proof (induction buf ks vs "end" props p rule: propertiesLoop.induct)
  case (1 buf ks vs "end" props p)
  show ?case
  proof (cases "p < end")
    case True
    with 1(2) obtain ki r vi r' where k: "uint32 buf p = Ret ki r"
      and v: "uint32 buf r = Ret vi r'"
      and l: "propertiesLoop buf ks vs end
                (setProperty props (keyAt ks (unat ki)) (valueAt vs (unat vi))) r' = Ret props' q"
      by (auto simp: propertiesLoop.simps[of buf ks vs "end" props p] andThen_Ret)
    from 1(1)[OF True k v l] k v show ?thesis by (auto dest!: uint32_adv)
  next
    case False
    with 1(2) show ?thesis by (simp add: propertiesLoop.simps[of buf ks vs "end" props p])
  qed
qed

text \<open>The body of the constructor's loop after the tag is read.\<close>

definition featureField ::
  "buffer \<Rightarrow> string list \<Rightarrow> PropValues list \<Rightarrow> Feature \<Rightarrow> nat \<Rightarrow> nat \<Rightarrow> nat \<Rightarrow> Feature res"
  where
  "featureField buf ks vs f fieldId wireType q =
     (if fieldId = 1 then
        andThen (int64 buf q) (\<lambda>w q'. Ret (f\<lparr>id_F := Some (decimal (sint w))\<rparr>) q')
      else if fieldId = 2 then
        andThen (uint32 buf q) (\<lambda>len q1.
          andThen (propertiesLoop buf ks vs (unat len + q1) (properties f) q1) (\<lambda>props q'.
            Ret (f\<lparr>properties := props\<rparr>) q'))
      else if fieldId = 3 then
        andThen (uint32 buf q) (\<lambda>t q'. Ret (f\<lparr>type_F := unat t\<rparr>) q')
      else if fieldId = 4 then
        (let f' = f\<lparr>geometryOffset := q\<rparr> in
         andThen (skip buf wireType q) (\<lambda>_ q'. Ret f' q'))
      else Ret f q)"

lemma featureField_le: "featureField buf ks vs f fieldId wireType q = Ret f' q' \<Longrightarrow> q \<le> q'"
  by (auto simp: featureField_def andThen_Ret Let_def split: if_splits
           dest!: uint32_adv int64_adv skip_adv propertiesLoop_le)

function featureLoop ::
  "buffer \<Rightarrow> string list \<Rightarrow> PropValues list \<Rightarrow> nat \<Rightarrow> Feature \<Rightarrow> nat \<Rightarrow> Feature res" where
  "featureLoop buf ks vs end f p =
     (if p < end then
        andThen (tag buf p) (\<lambda>ft q.
          andThen (featureField buf ks vs f (fst ft) (snd ft) q) (\<lambda>f' q'.
            featureLoop buf ks vs end f' q'))
      else Ret f p)"
  by pat_completeness auto
termination
proof (relation "measure (\<lambda>(buf, ks, vs, end, f, p). end - p)", simp_all)
  fix buf ks vs "end" f p ft q f' q'
  assume "p < end" "tag buf p = Ret ft q"
    "featureField buf ks vs f (fst ft) (snd ft) q = Ret f' q'"
  then have "p < q \<and> q \<le> q'" by (auto dest: tag_adv featureField_le)
  with \<open>p < end\<close> show "end - q' < end - p" by arith
qed

declare featureLoop.simps [simp del]

text \<open>The constructor \<^verbatim>\<open>new Feature(reader, end, keys, values, extent)\<close>.\<close>

definition newFeature ::
  "buffer \<Rightarrow> nat \<Rightarrow> string list \<Rightarrow> PropValues list \<Rightarrow> nat \<Rightarrow> nat \<Rightarrow> Feature res" where
  "newFeature buf end ks vs ext p =
     featureLoop buf ks vs end
       \<lparr>id_F = None, type_F = UNKNOWN,
        properties = \<lparr>entries = Mapping.empty, nullProto = False\<rparr>,
        geometryOffset = 0, extent_F = ext\<rparr> p"

text \<open>
  \<^verbatim>\<open>Layer.feature(index)\<close>, called with the shared cursor at \<open>p\<close>: the cursor is set to
  the recorded offset before anything is read.
\<close>

definition feature :: "buffer \<Rightarrow> Layer \<Rightarrow> int \<Rightarrow> nat \<Rightarrow> Feature res" where
  "feature buf layer index p =
     (if index < 0 \<or> index \<ge> int (length (featureOffsets layer)) then Threw OutOfBounds p
      else
        andThen (uint32 buf (featureOffsets layer ! nat index)) (\<lambda>len q.
          newFeature buf (unat len + q) (keys layer) (values_L layer) (extent layer) q))"

section \<open>Geometry\<close>

text \<open>
  A \<^verbatim>\<open>Point\<close> has two number fields, \<^verbatim>\<open>x\<close> and \<^verbatim>\<open>y\<close>. The decoder only ever adds
  32-bit integers to them, so they are modelled as integers (exact in a JavaScript
  number below \<open>2 ^ 53\<close>).
\<close>

datatype Point = Point (px: int) (py: int)

text \<open>The variables of the loop of \<^verbatim>\<open>loadGeometry\<close>; \<open>length_G\<close> is \<^verbatim>\<open>length\<close>.\<close>

record GeomState =
  command :: nat
  length_G :: int
  gx :: int
  gy :: int
  lines :: "Point list list"
  line :: "Point list option"

text \<open>
  One turn of the loop of \<^verbatim>\<open>loadGeometry\<close>, the cursor at \<open>p\<close>, in two parts: the
  command integer is read when the repeat count is used up; then the count goes down by
  one and the command is carried out.
\<close>

definition geomCommand :: "buffer \<Rightarrow> GeomState \<Rightarrow> nat \<Rightarrow> GeomState res" where
  "geomCommand buf st p =
     (if length_G st \<le> 0 then
        andThen (uint32 buf p) (\<lambda>commandLen q.
          Ret (st\<lparr>command := unat (commandLen AND 0x7),
                   length_G := int (unat (drop_bit 3 commandLen))\<rparr>) q)
      else Ret st p)"

definition geomApply :: "buffer \<Rightarrow> GeomState \<Rightarrow> nat \<Rightarrow> GeomState res" where
  "geomApply buf st1 q1 =
     (let st2 = st1\<lparr>length_G := length_G st1 - 1\<rparr> in
      if command st2 = MoveTo \<or> command st2 = LineTo then
        andThen (sint32 buf q1) (\<lambda>dx q2.
          andThen (sint32 buf q2) (\<lambda>dy q3.
            let st3 = st2\<lparr>gx := gx st2 + dx, gy := gy st2 + dy\<rparr>;
                st4 = (if command st3 = MoveTo then
                         st3\<lparr>lines := (case line st3 of
                                            None \<Rightarrow> lines st3
                                          | Some l \<Rightarrow> lines st3 @ [l]),
                              line := Some []\<rparr>
                       else st3)
            in Ret (st4\<lparr>line := map_option (\<lambda>l. l @ [Point (gx st4) (gy st4)])
                                     (line st4)\<rparr>) q3))
      else if command st2 = ClosePath then
        (case line st2 of
           None \<Rightarrow> Ret st2 q1
         | Some [] \<Rightarrow> Threw TypeError q1
         | Some (p0 # l) \<Rightarrow> Ret (st2\<lparr>line := Some ((p0 # l) @ [Point (px p0) (py p0)])\<rparr>) q1)
      else Ret st2 q1)"

definition geomStep :: "buffer \<Rightarrow> GeomState \<Rightarrow> nat \<Rightarrow> GeomState res" where
  "geomStep buf st p = andThen (geomCommand buf st p) (\<lambda>st1 q1. geomApply buf st1 q1)"

text \<open>
  A turn of the loop never moves the cursor back; it moves it forward when it reads a
  command integer, and otherwise the repeat count goes down by one.
\<close>

lemma geomCommand_cases:
  assumes "geomCommand buf st p = Ret st1 q1"
  shows "(length_G st \<le> 0 \<and> p < q1 \<and> 0 \<le> length_G st1) \<or> (0 < length_G st \<and> q1 = p \<and> st1 = st)"
  using assms by (auto simp: geomCommand_def andThen_Ret split: if_splits dest!: uint32_adv)

lemma geomApply_le:
  assumes "geomApply buf st1 q1 = Ret st' q"
  shows "q1 \<le> q \<and> length_G st' = length_G st1 - 1"
proof (cases "command st1 = MoveTo \<or> command st1 = LineTo")
  case True
  with assms obtain dx q2 dy q3 where "sint32 buf q1 = Ret dx q2" "sint32 buf q2 = Ret dy q3"
    and "q3 = q" and "length_G st' = length_G st1 - 1"
    by (auto simp: geomApply_def Let_def andThen_Ret split: if_splits)
  then show ?thesis by (auto dest!: sint32_adv)
next
  case False
  with assms show ?thesis
    by (auto simp: geomApply_def Let_def split: if_splits option.splits list.splits)
qed

lemma geomStep_measure:
  assumes "geomStep buf st p = Ret st' q"
  shows "p < q \<or> (p = q \<and> 0 < length_G st \<and> length_G st' = length_G st - 1)"
proof -
  from assms obtain st1 q1 where c: "geomCommand buf st p = Ret st1 q1"
    and a: "geomApply buf st1 q1 = Ret st' q"
    by (auto simp: geomStep_def andThen_Ret)
  from geomCommand_cases[OF c] geomApply_le[OF a] show ?thesis by auto
qed

function geomLoop :: "buffer \<Rightarrow> nat \<Rightarrow> GeomState \<Rightarrow> nat \<Rightarrow> GeomState res" where
  "geomLoop buf end st p =
     (if p < end then andThen (geomStep buf st p) (\<lambda>st' q. geomLoop buf end st' q)
      else Ret st p)"
  by pat_completeness auto
termination
  apply (relation "measures [\<lambda>(buf, end, st, p). end - p, \<lambda>(buf, end, st, p). nat (length_G st)]")
   apply simp
  apply (auto dest!: geomStep_measure)
  done

declare geomLoop.simps [simp del]

text \<open>\<^verbatim>\<open>Feature.loadGeometry()\<close>, called with the shared cursor at \<open>p\<close>.\<close>

definition loadGeometry :: "buffer \<Rightarrow> Feature \<Rightarrow> nat \<Rightarrow> (Point list list) res" where
  "loadGeometry buf f p =
     (let p' = geometryOffset f in
      andThen (uint32 buf p') (\<lambda>len q.
        andThen
          (geomLoop buf (unat len + q)
             \<lparr>command = 1, length_G = 0, gx = 0, gy = 0, lines = [], line = None\<rparr> q)
          (\<lambda>st q'. Ret (case line st of None \<Rightarrow> lines st | Some l \<Rightarrow> lines st @ [l]) q')))"

text \<open>The variables of the loop of \<^verbatim>\<open>bbox\<close>; \<open>command_B\<close> is \<^verbatim>\<open>command\<close>.\<close>

record BboxState =
  command_B :: nat
  count :: int
  bx :: int
  by_B :: int
  xMin :: int
  xMax :: int
  yMin :: int
  yMax :: int

definition MAX_SAFE_INTEGER :: int where "MAX_SAFE_INTEGER = 2 ^ 53 - 1"
definition MIN_SAFE_INTEGER :: int where "MIN_SAFE_INTEGER = - (2 ^ 53 - 1)"

definition bboxCommand :: "buffer \<Rightarrow> BboxState \<Rightarrow> nat \<Rightarrow> BboxState res" where
  "bboxCommand buf st p =
     (if count st \<le> 0 then
        andThen (uint32 buf p) (\<lambda>commandInteger q.
          Ret (st\<lparr>command_B := unat (commandInteger AND 0x7),
                   count := int (unat (drop_bit 3 commandInteger))\<rparr>) q)
      else Ret st p)"

definition bboxApply :: "buffer \<Rightarrow> BboxState \<Rightarrow> nat \<Rightarrow> BboxState res" where
  "bboxApply buf st1 q1 =
     (let st2 = st1\<lparr>count := count st1 - 1\<rparr> in
      if command_B st2 = MoveTo \<or> command_B st2 = LineTo then
        andThen (sint32 buf q1) (\<lambda>dx q2.
          andThen (sint32 buf q2) (\<lambda>dy q3.
            let st3 = st2\<lparr>bx := bx st2 + dx, by_B := by_B st2 + dy\<rparr> in
            Ret (st3\<lparr>xMax := max (bx st3) (xMax st3), xMin := min (bx st3) (xMin st3),
                      yMax := max (by_B st3) (yMax st3), yMin := min (by_B st3) (yMin st3)\<rparr>)
              q3))
      else Ret st2 q1)"

definition bboxStep :: "buffer \<Rightarrow> BboxState \<Rightarrow> nat \<Rightarrow> BboxState res" where
  "bboxStep buf st p = andThen (bboxCommand buf st p) (\<lambda>st1 q1. bboxApply buf st1 q1)"

lemma bboxCommand_cases:
  assumes "bboxCommand buf st p = Ret st1 q1"
  shows "(count st \<le> 0 \<and> p < q1 \<and> 0 \<le> count st1) \<or> (0 < count st \<and> q1 = p \<and> st1 = st)"
  using assms by (auto simp: bboxCommand_def andThen_Ret split: if_splits dest!: uint32_adv)

lemma bboxApply_le:
  assumes "bboxApply buf st1 q1 = Ret st' q"
  shows "q1 \<le> q \<and> count st' = count st1 - 1"
proof (cases "command_B st1 = MoveTo \<or> command_B st1 = LineTo")
  case True
  with assms obtain dx q2 dy q3 where "sint32 buf q1 = Ret dx q2" "sint32 buf q2 = Ret dy q3"
    and "q3 = q" and "count st' = count st1 - 1"
    by (auto simp: bboxApply_def Let_def andThen_Ret split: if_splits)
  then show ?thesis by (auto dest!: sint32_adv)
next
  case False
  with assms show ?thesis
    by (auto simp: bboxApply_def Let_def split: if_splits)
qed

lemma bboxStep_measure:
  assumes "bboxStep buf st p = Ret st' q"
  shows "p < q \<or> (p = q \<and> 0 < count st \<and> count st' = count st - 1)"
proof -
  from assms obtain st1 q1 where c: "bboxCommand buf st p = Ret st1 q1"
    and a: "bboxApply buf st1 q1 = Ret st' q"
    by (auto simp: bboxStep_def andThen_Ret)
  from bboxCommand_cases[OF c] bboxApply_le[OF a] show ?thesis by auto
qed

function bboxLoop :: "buffer \<Rightarrow> nat \<Rightarrow> BboxState \<Rightarrow> nat \<Rightarrow> BboxState res" where
  "bboxLoop buf end st p =
     (if p < end then andThen (bboxStep buf st p) (\<lambda>st' q. bboxLoop buf end st' q)
      else Ret st p)"
  by pat_completeness auto
termination
  apply (relation "measures [\<lambda>(buf, end, st, p). end - p, \<lambda>(buf, end, st, p). nat (count st)]")
   apply simp
  apply (auto dest!: bboxStep_measure)
  done

declare bboxLoop.simps [simp del]

text \<open>\<^verbatim>\<open>Feature.bbox()\<close>: \<^verbatim>\<open>[xMin, yMin, xMax, yMax]\<close>.\<close>

definition bbox :: "buffer \<Rightarrow> Feature \<Rightarrow> nat \<Rightarrow> (int \<times> int \<times> int \<times> int) res" where
  "bbox buf f p =
     (let p' = geometryOffset f in
      andThen (uint32 buf p') (\<lambda>len q.
        andThen
          (bboxLoop buf (unat len + q)
             \<lparr>command_B = 0, count = 0, bx = 0, by_B = 0,
              xMin = MAX_SAFE_INTEGER, xMax = MIN_SAFE_INTEGER,
              yMin = MAX_SAFE_INTEGER, yMax = MIN_SAFE_INTEGER\<rparr> q)
          (\<lambda>st q'. Ret (xMin st, yMin st, xMax st, yMax st) q')))"

section \<open>Rings and polygons\<close>

text \<open>
  The numbers of \<^verbatim>\<open>signedArea\<close> are IEEE 754 doubles, and \<^verbatim>\<open>-\<close>, \<^verbatim>\<open>+\<close> and \<^verbatim>\<open>*\<close> round
  their exact result to the nearest double, a tie going to the even significand. The
  coordinates of a point are whole numbers, and a whole number rounded to a double of 53
  significant bits is a whole number again, or an infinity once the rounded magnitude
  reaches \<open>2 ^ 1024\<close>. So a number is \<open>Fin n\<close> for a whole number \<open>n\<close>, one of the two
  infinities, or \<^verbatim>\<open>NaN\<close>, which comes from the sum of the two infinities and from zero
  times an infinity. The two zeros of a double are the one \<open>Fin 0\<close>: the code only compares
  the area with zero.
\<close>

datatype number = Fin int | PosInf | NegInf | NaN

text \<open>The number of bits of a positive whole number.\<close>

function bitLength :: "int \<Rightarrow> nat" where
  "bitLength n = (if n \<le> 0 then 0 else Suc (bitLength (n div 2)))"
  by pat_completeness auto
termination
  by (relation "measure nat") auto

declare bitLength.simps [simp del]

text \<open>
  The double nearest to a whole number: below \<open>2 ^ 53\<close> every whole number is a double;
  above, the \<open>k\<close> bits after the first 53 are rounded away, to the even neighbour when they
  are exactly the half.
\<close>

definition roundDouble :: "int \<Rightarrow> number" where
  "roundDouble n =
     (let a = \<bar>n\<bar> in
      if a < 2 ^ 53 then Fin n
      else
        (let k = bitLength a - 53;
             d = a div 2 ^ k;
             r = a mod 2 ^ k;
             half = 2 ^ (k - 1);
             m = (if r > half \<or> (r = half \<and> odd d) then d + 1 else d) * 2 ^ k
         in if m \<ge> 2 ^ 1024 then (if n < 0 then NegInf else PosInf)
            else Fin (if n < 0 then - m else m)))"

fun numSign :: "number \<Rightarrow> int" where
  "numSign (Fin a) = sgn a"
| "numSign PosInf = 1"
| "numSign NegInf = - 1"
| "numSign NaN = 0"

fun numNeg :: "number \<Rightarrow> number" where
  "numNeg (Fin a) = Fin (- a)"
| "numNeg PosInf = NegInf"
| "numNeg NegInf = PosInf"
| "numNeg NaN = NaN"

fun numAdd :: "number \<Rightarrow> number \<Rightarrow> number" where
  "numAdd NaN b = NaN"
| "numAdd a NaN = NaN"
| "numAdd (Fin a) (Fin b) = roundDouble (a + b)"
| "numAdd PosInf NegInf = NaN"
| "numAdd NegInf PosInf = NaN"
| "numAdd PosInf b = PosInf"
| "numAdd NegInf b = NegInf"
| "numAdd (Fin a) b = b"

definition numSub :: "number \<Rightarrow> number \<Rightarrow> number" where
  "numSub a b = numAdd a (numNeg b)"

fun numMul :: "number \<Rightarrow> number \<Rightarrow> number" where
  "numMul NaN b = NaN"
| "numMul a NaN = NaN"
| "numMul (Fin a) (Fin b) = roundDouble (a * b)"
| "numMul a b =
     (if numSign a * numSign b = 0 then NaN
      else if numSign a * numSign b > 0 then PosInf
      else NegInf)"

text \<open>\<^verbatim>\<open>a < b\<close> on numbers: false when one of them is \<^verbatim>\<open>NaN\<close>.\<close>

fun numLess :: "number \<Rightarrow> number \<Rightarrow> bool" where
  "numLess NaN b = False"
| "numLess a NaN = False"
| "numLess (Fin a) (Fin b) = (a < b)"
| "numLess PosInf b = False"
| "numLess a PosInf = True"
| "numLess a NegInf = False"
| "numLess NegInf b = True"

text \<open>
  \<^verbatim>\<open>signedArea\<close>: the loop \<^verbatim>\<open>for (i = 0, j = len - 1; i < len; j = i++)\<close> over the
  indices of the ring, with \<^verbatim>\<open>sum += (point2.x - point1.x) * (point1.y + point2.y)\<close>.
  A coordinate enters the sum as it is: the points of the code hold doubles, so a
  coordinate beyond \<open>2 ^ 53\<close> is one of the whole numbers that a double holds.
\<close>

function signedAreaLoop :: "Point list \<Rightarrow> nat \<Rightarrow> nat \<Rightarrow> number \<Rightarrow> number" where
  "signedAreaLoop ring i j s =
     (if i < length ring then
        (let point1 = ring ! i; point2 = ring ! j in
         signedAreaLoop ring (i + 1) i
           (numAdd s
              (numMul (numSub (Fin (px point2)) (Fin (px point1)))
                      (numAdd (Fin (py point1)) (Fin (py point2))))))
      else s)"
  by pat_completeness auto
termination
  by (relation "measure (\<lambda>(ring, i, j, s). length ring - i)") auto

declare signedAreaLoop.simps [simp del]

definition signedArea :: "Point list \<Rightarrow> number" where
  "signedArea ring = signedAreaLoop ring 0 (length ring - 1) (Fin 0)"

text \<open>
  The loop of \<^verbatim>\<open>classifyRings\<close> over the rings, with the variables \<^verbatim>\<open>polygons\<close> and
  \<^verbatim>\<open>polygon\<close> (\<open>None\<close> is \<^verbatim>\<open>null\<close>).
\<close>

fun classifyLoop ::
  "Point list list \<Rightarrow> Point list list list \<Rightarrow> Point list list option
     \<Rightarrow> Point list list list \<times> Point list list option" where
  "classifyLoop [] polygons polygon = (polygons, polygon)"
| "classifyLoop (ring # rings) polygons polygon =
     (let area = signedArea ring in
      if area = Fin 0 then classifyLoop rings polygons polygon
      else if numLess (Fin 0) area then
        classifyLoop rings
          (case polygon of None \<Rightarrow> polygons | Some pg \<Rightarrow> polygons @ [pg]) (Some [ring])
      else
        classifyLoop rings polygons (map_option (\<lambda>pg. pg @ [ring]) polygon))"

definition classifyRings :: "Point list list \<Rightarrow> Point list list list" where
  "classifyRings rings =
     (if length rings \<le> 1 then [rings]
      else
        (let (polygons, polygon) = classifyLoop rings [] None in
         case polygon of None \<Rightarrow> polygons | Some pg \<Rightarrow> polygons @ [pg]))"

section \<open>Typed access to the geometry\<close>

text \<open>
  \<^verbatim>\<open>asPoints\<close>, \<^verbatim>\<open>asLines\<close> and \<^verbatim>\<open>asPolygons\<close> return \<open>None\<close> for \<^verbatim>\<open>null\<close>.
  \<^verbatim>\<open>asPoints\<close> decodes the geometry before it looks at the type; \<^verbatim>\<open>points[0]\<close> of an
  empty line is \<^verbatim>\<open>undefined\<close>, here \<open>None\<close>.
\<close>

definition asPoints :: "buffer \<Rightarrow> Feature \<Rightarrow> nat \<Rightarrow> (Point option list option) res" where
  "asPoints buf f p =
     andThen (loadGeometry buf f p) (\<lambda>ls q.
       let points = map (\<lambda>points. case points of [] \<Rightarrow> None | pt # _ \<Rightarrow> Some pt) ls in
       Ret (if type_F f = POINT then Some points else None) q)"

definition asLines :: "buffer \<Rightarrow> Feature \<Rightarrow> nat \<Rightarrow> (Point list list option) res" where
  "asLines buf f p =
     (if type_F f = LINESTRING then andThen (loadGeometry buf f p) (\<lambda>ls q. Ret (Some ls) q)
      else Ret None p)"

definition asPolygons :: "buffer \<Rightarrow> Feature \<Rightarrow> nat \<Rightarrow> (Point list list list option) res" where
  "asPolygons buf f p =
     (if type_F f = POLYGON then
        andThen (loadGeometry buf f p) (\<lambda>ls q. Ret (Some (classifyRings ls)) q)
      else Ret None p)"

section \<open>GeoJSON\<close>

text \<open>
  The coordinates of a GeoJSON geometry are nested arrays of positions. The projection
  of a point to a longitude and a latitude is floating-point arithmetic on \<^verbatim>\<open>x\<close>,
  \<^verbatim>\<open>y\<close>, \<^verbatim>\<open>zoom\<close> and the extent, which cannot throw; it is the parameter \<open>proj\<close>.
\<close>

datatype 'c coords = Position 'c | Array "'c coords list"

record 'c GeoJSON =
  geometryType :: string
  coordinates :: "'c coords"
  properties_G :: Properties
  id_G :: "string option"

text \<open>\<^verbatim>\<open>project(points)\<close>; a point that is \<^verbatim>\<open>undefined\<close> has no field \<^verbatim>\<open>y\<close>.\<close>

fun project :: "(Point \<Rightarrow> 'c) \<Rightarrow> Point option list \<Rightarrow> error + 'c coords list" where
  "project proj [] = Inr []"
| "project proj (None # points) = Inl TypeError"
| "project proj (Some point # points) =
     (case project proj points of Inl e \<Rightarrow> Inl e | Inr cs \<Rightarrow> Inr (Position (proj point) # cs))"

definition projectLine :: "(Point \<Rightarrow> 'c) \<Rightarrow> Point list \<Rightarrow> 'c coords" where
  "projectLine proj points = Array (map (\<lambda>point. Position (proj point)) points)"

text \<open>
  The end of \<^verbatim>\<open>toGeoJSON\<close>, from the test of \<^verbatim>\<open>coordinates.length\<close> on: \<open>None\<close> is the
  \<^verbatim>\<open>undefined\<close> that \<^verbatim>\<open>coordinates\<close> holds when no case of the switch was taken.
\<close>

definition finishGeoJSON ::
  "Feature \<Rightarrow> string \<Rightarrow> 'c coords list option \<Rightarrow> nat \<Rightarrow> ('c GeoJSON) res" where
  "finishGeoJSON f ty cs q =
     (case cs of
        None \<Rightarrow> Threw TypeError q
      | Some cs' \<Rightarrow>
          Ret \<lparr>geometryType = (if length cs' = 1 then ty else ''Multi'' @ ty),
               coordinates = (if length cs' = 1 then cs' ! 0 else Array cs'),
               properties_G = properties f,
               id_G = id_F f\<rparr> q)"

definition toGeoJSON :: "(Point \<Rightarrow> 'c) \<Rightarrow> buffer \<Rightarrow> Feature \<Rightarrow> nat \<Rightarrow> ('c GeoJSON) res" where
  "toGeoJSON proj buf f p =
     (if type_F f = POINT then
        andThen (asPoints buf f p) (\<lambda>r q.
          case r of
            None \<Rightarrow> Threw TypeError q
          | Some points \<Rightarrow>
              (case project proj points of
                 Inl e \<Rightarrow> Threw e q
               | Inr cs \<Rightarrow> finishGeoJSON f ''Point'' (Some cs) q))
      else if type_F f = LINESTRING then
        andThen (asLines buf f p) (\<lambda>r q.
          case r of
            None \<Rightarrow> Threw TypeError q
          | Some ls \<Rightarrow> finishGeoJSON f ''LineString'' (Some (map (projectLine proj) ls)) q)
      else if type_F f = 3 then
        andThen (asPolygons buf f p) (\<lambda>r q.
          case r of
            None \<Rightarrow> Threw TypeError q
          | Some polygons \<Rightarrow>
              finishGeoJSON f ''Polygon''
                (Some (map (\<lambda>rings. Array (map (projectLine proj) rings)) polygons)) q)
      else finishGeoJSON f [] None p)"

section \<open>Calls on one reader\<close>

text \<open>
  The calls that a program makes on the features and layers of one tile all move the one
  cursor of its reader. A call is carried out with the cursor where the call before left
  it, and leaves it where its last read, or its exception, left it.
\<close>

datatype call = LoadGeometry Feature | Bbox Feature | GetFeature Layer int

datatype result =
    Lines "Point list list"
  | Box "int \<times> int \<times> int \<times> int"
  | Decoded Feature
  | Failed error

fun perform :: "buffer \<Rightarrow> call \<Rightarrow> nat \<Rightarrow> result \<times> nat" where
  "perform buf (LoadGeometry f) p =
     (case loadGeometry buf f p of Threw e q \<Rightarrow> (Failed e, q) | Ret ls q \<Rightarrow> (Lines ls, q))"
| "perform buf (Bbox f) p =
     (case bbox buf f p of Threw e q \<Rightarrow> (Failed e, q) | Ret b q \<Rightarrow> (Box b, q))"
| "perform buf (GetFeature layer index) p =
     (case feature buf layer index p of
        Threw e q \<Rightarrow> (Failed e, q)
      | Ret f q \<Rightarrow> (Decoded f, q))"

fun performAll :: "buffer \<Rightarrow> call list \<Rightarrow> nat \<Rightarrow> nat" where
  "performAll buf [] p = p"
| "performAll buf (c # cs) p = performAll buf cs (snd (perform buf c p))"

section \<open>Loops run for a number of turns\<close>

text \<open>
  A loop \<^verbatim>\<open>while (pos < end) { ... }\<close> run for at most \<open>n\<close> turns: \<open>None\<close> when the
  turns are used up before the loop has ended.
\<close>

fun turns :: "nat \<Rightarrow> ('s \<Rightarrow> nat \<Rightarrow> 's res) \<Rightarrow> nat \<Rightarrow> 's \<Rightarrow> nat \<Rightarrow> 's res option" where
  "turns 0 step end st p = None"
| "turns (Suc n) step end st p =
     (if p < end then
        (case step st p of Threw e q \<Rightarrow> Some (Threw e q) | Ret st' q \<Rightarrow> turns n step end st' q)
      else Some (Ret st p))"

section \<open>Ring classification as the specification words it\<close>









section \<open>Where the area is the exact sum\<close>

text \<open>
  The shoelace sum of a ring in exact arithmetic: the sum of \<^verbatim>\<open>signedArea\<close> over the same
  pairs of points, with no step rounded.
\<close>

function shoelaceLoop :: "Point list \<Rightarrow> nat \<Rightarrow> nat \<Rightarrow> int \<Rightarrow> int" where
  "shoelaceLoop ring i j s =
     (if i < length ring then
        shoelaceLoop ring (i + 1) i
          (s + (px (ring ! j) - px (ring ! i)) * (py (ring ! i) + py (ring ! j)))
      else s)"
  by pat_completeness auto
termination
  by (relation "measure (\<lambda>(ring, i, j, s). length ring - i)") auto

declare shoelaceLoop.simps [simp del]

definition shoelace :: "Point list \<Rightarrow> int" where
  "shoelace ring = shoelaceLoop ring 0 (length ring - 1) 0"

lemma roundDouble_small: "\<bar>n\<bar> < 2 ^ 53 \<Longrightarrow> roundDouble n = Fin n"
  by (simp add: roundDouble_def)

lemma product_bound:
  fixes a b c d :: int
  assumes "\<bar>a\<bar> \<le> c" "\<bar>b\<bar> \<le> d"
  shows "\<bar>a * b\<bar> \<le> c * d"
proof -
  have "\<bar>a * b\<bar> = \<bar>a\<bar> * \<bar>b\<bar>" by (simp add: abs_mult)
  also have "\<dots> \<le> c * d" using assms by (intro mult_mono) auto
  finally show ?thesis .
qed

text \<open>One term of the sum, for two points with coordinates up to \<open>B\<close> in magnitude.\<close>

lemma term_exact:
  assumes p1: "\<bar>px point1\<bar> \<le> B" "\<bar>py point1\<bar> \<le> B"
    and p2: "\<bar>px point2\<bar> \<le> B" "\<bar>py point2\<bar> \<le> B"
    and B: "4 * B * B < 2 ^ 53"
  shows "numMul (numSub (Fin (px point2)) (Fin (px point1)))
                (numAdd (Fin (py point1)) (Fin (py point2))) =
         Fin ((px point2 - px point1) * (py point1 + py point2))"
    and "\<bar>(px point2 - px point1) * (py point1 + py point2)\<bar> \<le> 4 * B * B"
proof -
  have B0: "0 \<le> B" using p1 by linarith
  have dx: "\<bar>px point2 - px point1\<bar> \<le> 2 * B" using p1 p2 by linarith
  have sy: "\<bar>py point1 + py point2\<bar> \<le> 2 * B" using p1 p2 by linarith
  have pr: "\<bar>(px point2 - px point1) * (py point1 + py point2)\<bar> \<le> (2 * B) * (2 * B)"
    using dx sy by (rule product_bound)
  then show t: "\<bar>(px point2 - px point1) * (py point1 + py point2)\<bar> \<le> 4 * B * B"
    by simp
  have "2 * B \<le> 4 * B * B \<or> B = 0"
  proof (cases "B = 0")
    case False
    with B0 have "1 \<le> B" by linarith
    then have "2 * B * 1 \<le> 2 * B * (2 * B)" using B0 by (intro mult_left_mono) auto
    then show ?thesis by simp
  qed simp
  then have small: "2 * B < 2 ^ 53" using B by auto
  from dx small have "roundDouble (px point2 - px point1) = Fin (px point2 - px point1)"
    by (intro roundDouble_small) linarith
  moreover from sy small have "roundDouble (py point1 + py point2) = Fin (py point1 + py point2)"
    by (intro roundDouble_small) linarith
  moreover from t B
  have "roundDouble ((px point2 - px point1) * (py point1 + py point2)) =
        Fin ((px point2 - px point1) * (py point1 + py point2))"
    by (intro roundDouble_small) linarith
  ultimately show "numMul (numSub (Fin (px point2)) (Fin (px point1)))
                (numAdd (Fin (py point1)) (Fin (py point2))) =
         Fin ((px point2 - px point1) * (py point1 + py point2))"
    by (simp add: numSub_def)
qed

lemma signedAreaLoop_exact:
  assumes pts: "\<forall>point \<in> set ring. \<bar>px point\<bar> \<le> B \<and> \<bar>py point\<bar> \<le> B"
    and len: "int (length ring) * (4 * B * B) < 2 ^ 53"
  shows "i \<le> length ring \<Longrightarrow> j < length ring \<Longrightarrow> \<bar>s\<bar> \<le> int i * (4 * B * B) \<Longrightarrow>
         signedAreaLoop ring i j (Fin s) = Fin (shoelaceLoop ring i j s)"
proof (induction "length ring - i" arbitrary: i j s)
  case 0
  then show ?case by (simp add: signedAreaLoop.simps[of ring i] shoelaceLoop.simps[of ring i])
next
  case (Suc n)
  then have i: "i < length ring" by linarith
  let ?t = "(px (ring ! j) - px (ring ! i)) * (py (ring ! i) + py (ring ! j))"
  have pi: "\<bar>px (ring ! i)\<bar> \<le> B" "\<bar>py (ring ! i)\<bar> \<le> B" using pts i by auto
  have pj: "\<bar>px (ring ! j)\<bar> \<le> B" "\<bar>py (ring ! j)\<bar> \<le> B" using pts Suc.prems(2) by auto
  have "1 * (4 * B * B) \<le> int (length ring) * (4 * B * B)"
    using i by (intro mult_right_mono) auto
  then have "4 * B * B \<le> int (length ring) * (4 * B * B)" by (simp only: mult_1)
  with len have B: "4 * B * B < 2 ^ 53" by linarith
  note te = term_exact[OF pi pj B]
  have s': "\<bar>s + ?t\<bar> \<le> int (i + 1) * (4 * B * B)"
    using Suc.prems(3) te(2) by (simp add: algebra_simps)
  have "int (i + 1) * (4 * B * B) \<le> int (length ring) * (4 * B * B)"
    using i by (intro mult_right_mono) auto
  with s' len have "\<bar>s + ?t\<bar> < 2 ^ 53" by linarith
  then have add: "numAdd (Fin s) (Fin ?t) = Fin (s + ?t)" by (simp add: roundDouble_small)
  have "n = length ring - (i + 1)" using Suc.hyps(2) by simp
  from Suc.hyps(1)[OF this _ i s'] i
  have "signedAreaLoop ring (i + 1) i (Fin (s + ?t)) = Fin (shoelaceLoop ring (i + 1) i (s + ?t))"
    by simp
  with i te(1) add show ?case
    by (simp add: signedAreaLoop.simps[of ring i] shoelaceLoop.simps[of ring i] Let_def)
qed

text \<open>
  For a ring of \<open>n\<close> points with coordinates up to \<open>B\<close> in magnitude and \<open>4 * n * B * B\<close>
  below \<open>2 ^ 53\<close>, no step of \<^verbatim>\<open>signedArea\<close> is rounded: the area is the exact shoelace sum.
  With \<open>B = 8192\<close>, twice the default extent, that holds for every ring of fewer than
  \<open>2 ^ 25\<close> points.
\<close>

lemma signedArea_exact:
  assumes "\<forall>point \<in> set ring. \<bar>px point\<bar> \<le> B \<and> \<bar>py point\<bar> \<le> B"
    and "int (length ring) * (4 * B * B) < 2 ^ 53"
  shows "signedArea ring = Fin (shoelace ring)"
proof (cases "ring = []")
  case True
  then show ?thesis
    by (simp add: signedArea_def shoelace_def signedAreaLoop.simps[of "[]"]
          shoelaceLoop.simps[of "[]"])
next
  case False
  then have "length ring - 1 < length ring" by simp
  from signedAreaLoop_exact[OF assms _ this, of 0 0] show ?thesis
    by (simp add: signedArea_def shoelace_def)
qed

section \<open>What the decoding of a feature can throw\<close>

definition readerError :: "error \<Rightarrow> bool" where
  "readerError e = (e = RangeError \<or> e = InvalidVarint \<or> e = IllegalTag \<or> e = CantSkip)"

lemma andThen_Threw:
  "andThen m f = Threw e q \<longleftrightarrow> m = Threw e q \<or> (\<exists>v r. m = Ret v r \<and> f v r = Threw e q)"
  by (auto simp: andThen_def split: res.splits)

lemma assertBounds_Threw: "assertBounds buf v q = Threw e r \<Longrightarrow> readerError e"
  by (auto simp: assertBounds_def readerError_def split: if_splits)

lemma uint32_Threw: "uint32 buf p = Threw e q \<Longrightarrow> readerError e"
  unfolding uint32_def Let_def
  by (auto simp: readerError_def assertBounds_def split: if_splits prod.splits)

lemma tag_Threw: "tag buf p = Threw e q \<Longrightarrow> readerError e"
  by (auto simp: tag_def andThen_Threw Let_def readerError_def split: if_splits
           dest!: uint32_Threw)

lemma varint64_Threw: "varint64 buf n sh acc p = Threw e q \<Longrightarrow> readerError e"
proof (induction n arbitrary: sh acc p)
  case 0
  then show ?case by (simp add: readerError_def)
next
  case (Suc n)
  show ?case
  proof (cases "byteAt buf p AND 0x80 = 0")
    case True
    with Suc.prems show ?thesis by (auto simp: Let_def dest: assertBounds_Threw)
  next
    case False
    with Suc.prems have "varint64 buf n (sh + 7)
        (acc OR push_bit sh (ucast (byteAt buf p AND 0x7F))) (p + 1) = Threw e q"
      by (simp add: Let_def)
    then show ?thesis by (rule Suc.IH)
  qed
qed

lemma int64_Threw: "int64 buf p = Threw e q \<Longrightarrow> readerError e"
  unfolding int64_def by (rule varint64_Threw)

lemma skip_Threw: "skip buf wireType p = Threw e q \<Longrightarrow> readerError e"
  and skipGroup_Threw: "skipGroup buf p = Threw e' q' \<Longrightarrow> readerError e'"
proof (induction buf wireType p and buf p arbitrary: e q and e' q' rule: skip_skipGroup.induct)
  case (1 buf wireType p)
  show ?case
  proof (cases "wireType = 3")
    case True
    with 1(2) have "skipGroup buf p = Threw e q \<or> (\<exists>r. assertBounds buf () r = Threw e q)"
      by (auto simp: skip.simps[of buf 3 p] andThen_Threw)
    then show ?thesis using "1.IH" True by (auto dest: assertBounds_Threw)
  next
    case False
    with 1(2) show ?thesis
      by (auto simp: skip.simps[of buf wireType p] andThen_Threw
               split: if_splits dest: uint32_Threw assertBounds_Threw)
         (simp add: readerError_def)
  qed
next
  case (2 buf p)
  from 2(3) consider "tag buf p = Threw e' q'"
    | f t r where "tag buf p = Ret (f, t) r" "t \<noteq> 4" "skip buf t r = Threw e' q'"
    | f t r r' where "tag buf p = Ret (f, t) r" "t \<noteq> 4" "skip buf t r = Ret () r'"
        "skipGroup buf r' = Threw e' q'"
    by (auto simp: skipGroup.simps[of buf p] andThen_Threw split: if_splits)
  then show ?case
  proof cases
    case 1 then show ?thesis by (rule tag_Threw)
  next
    case 2 then show ?thesis using "2.IH"(1)[OF 2(1) refl 2(2)] by blast
  next
    case 3 then show ?thesis using "2.IH"(2)[OF 3(1) refl 3(2) 3(3)] by blast
  qed
qed

lemma propertiesLoop_Threw:
  "propertiesLoop buf ks vs end props p = Threw e q \<Longrightarrow> readerError e"
proof (induction buf ks vs "end" props p rule: propertiesLoop.induct)
  case (1 buf ks vs "end" props p)
  show ?case
  proof (cases "p < end")
    case True
    with 1(2) consider "uint32 buf p = Threw e q"
      | ki r where "uint32 buf p = Ret ki r" "uint32 buf r = Threw e q"
      | ki r vi r' where "uint32 buf p = Ret ki r" "uint32 buf r = Ret vi r'"
          "propertiesLoop buf ks vs end
             (setProperty props (keyAt ks (unat ki)) (valueAt vs (unat vi))) r' = Threw e q"
      by (auto simp: propertiesLoop.simps[of buf ks vs "end" props p] andThen_Threw)
    then show ?thesis
    proof cases
      case 1 then show ?thesis by (rule uint32_Threw)
    next
      case 2 then show ?thesis by (auto dest: uint32_Threw)
    next
      case 3 then show ?thesis using "1.IH"[OF True 3(1) 3(2)] by blast
    qed
  next
    case False
    with 1(2) show ?thesis by (simp add: propertiesLoop.simps[of buf ks vs "end" props p])
  qed
qed

lemma featureField_Threw:
  "featureField buf ks vs f fieldId wireType q = Threw e q' \<Longrightarrow> readerError e"
  by (auto simp: featureField_def andThen_Threw Let_def split: if_splits
           dest!: uint32_Threw int64_Threw skip_Threw propertiesLoop_Threw)

lemma featureLoop_Threw: "featureLoop buf ks vs end f p = Threw e q \<Longrightarrow> readerError e"
proof (induction buf ks vs "end" f p rule: featureLoop.induct)
  case (1 buf ks vs "end" f p)
  show ?case
  proof (cases "p < end")
    case True
    with 1(2) consider "tag buf p = Threw e q"
      | ft r where "tag buf p = Ret ft r" "featureField buf ks vs f (fst ft) (snd ft) r = Threw e q"
      | ft r f' r' where "tag buf p = Ret ft r"
          "featureField buf ks vs f (fst ft) (snd ft) r = Ret f' r'"
          "featureLoop buf ks vs end f' r' = Threw e q"
      by (auto simp: featureLoop.simps[of buf ks vs "end" f p] andThen_Threw)
    then show ?thesis
    proof cases
      case 1 then show ?thesis by (rule tag_Threw)
    next
      case 2 then show ?thesis by (auto dest: featureField_Threw)
    next
      case 3 then show ?thesis using "1.IH"[OF True 3(1) 3(2)] by blast
    qed
  next
    case False
    with 1(2) show ?thesis by (simp add: featureLoop.simps[of buf ks vs "end" f p])
  qed
qed

lemma newLayer_length: "newLayer td longType buf end p = Ret layer q \<Longrightarrow>
  length_L layer = length (featureOffsets layer)"
  by (auto simp: newLayer_def andThen_Ret)

section \<open>What the decoding of a feature depends on\<close>

text \<open>The error thrown, if any, and the cursor left: a result without its value.\<close>

definition outcome :: "'a res \<Rightarrow> error option \<times> nat" where
  "outcome r = (case r of Threw e q \<Rightarrow> (Some e, q) | Ret v q \<Rightarrow> (None, q))"

lemma outcome_Ret: "outcome (Ret v q) = (None, q)"
  by (simp add: outcome_def)

lemma outcome_andThen:
  assumes "outcome m = outcome m'"
    and "\<And>v v' q. m = Ret v q \<Longrightarrow> m' = Ret v' q \<Longrightarrow> outcome (f v q) = outcome (f' v' q)"
  shows "outcome (andThen m f) = outcome (andThen m' f')"
  using assms by (cases m; cases m') (auto simp: outcome_def andThen_def)

lemma propertiesLoop_outcome:
  "outcome (propertiesLoop buf ks vs end props p) =
   outcome (propertiesLoop buf ks' vs' end props' p)"
proof (induction buf ks vs "end" props p arbitrary: props' rule: propertiesLoop.induct)
  case (1 buf ks vs "end" props p)
  show ?case
  proof (cases "p < end")
    case True
    show ?thesis
      unfolding propertiesLoop.simps[of buf ks vs "end" props p]
        propertiesLoop.simps[of buf ks' vs' "end" props' p]
      using True
      by (auto intro!: outcome_andThen "1.IH")
  next
    case False
    then show ?thesis
      by (simp add: propertiesLoop.simps[of buf ks vs "end" props p]
            propertiesLoop.simps[of buf ks' vs' "end" props' p] outcome_Ret)
  qed
qed

lemma featureField_outcome:
  "outcome (featureField buf ks vs f fieldId wireType q) =
   outcome (featureField buf ks' vs' f' fieldId wireType q)"
  unfolding featureField_def Let_def
  by (auto intro!: outcome_andThen propertiesLoop_outcome simp: outcome_Ret)

lemma featureLoop_outcome:
  "outcome (featureLoop buf ks vs end f p) = outcome (featureLoop buf ks' vs' end f' p)"
proof (induction buf ks vs "end" f p arbitrary: f' rule: featureLoop.induct)
  case (1 buf ks vs "end" f p)
  show ?case
  proof (cases "p < end")
    case True
    show ?thesis
      unfolding featureLoop.simps[of buf ks vs "end" f p]
        featureLoop.simps[of buf ks' vs' "end" f' p]
      using True
      by (auto intro!: outcome_andThen featureField_outcome "1.IH")
  next
    case False
    then show ?thesis
      by (simp add: featureLoop.simps[of buf ks vs "end" f p]
            featureLoop.simps[of buf ks' vs' "end" f' p] outcome_Ret)
  qed
qed

section \<open>The layers that a tile keeps\<close>

definition nonEmptyLayers :: "VectorTile \<Rightarrow> bool" where
  "nonEmptyLayers tile =
     ((\<forall>key layer. Mapping.lookup (layers tile) key = Some layer \<longrightarrow> 1 \<le> length_L layer) \<and>
      (\<forall>layer. layersProto tile = Some layer \<longrightarrow> 1 \<le> length_L layer))"

lemma nonEmptyLayers_setLayer:
  "nonEmptyLayers tile \<Longrightarrow> length_L layer \<noteq> 0 \<Longrightarrow> nonEmptyLayers (setLayer tile key layer)"
  by (auto simp: nonEmptyLayers_def setLayer_def Mapping.lookup_update' split: if_splits)

lemma tileLoop_nonEmptyLayers:
  "nonEmptyLayers tile \<Longrightarrow> tileLoop td longType buf end tile p = Ret tile' q \<Longrightarrow>
     nonEmptyLayers tile'"
proof (induction td longType buf "end" tile p rule: tileLoop.induct)
  case (1 td longType buf "end" tile p)
  show ?case
  proof (cases "p < end")
    case True
    with 1(3) obtain v r len r' layer r'' where a: "uint32 buf p = Ret v r"
      and b: "uint32 buf r = Ret len r'"
      and c: "newLayer td longType buf (unat len + r') r' = Ret layer r''"
      and d: "tileLoop td longType buf end
                (if length_L layer \<noteq> 0 then setLayer tile (name layer) layer else tile) r'' =
              Ret tile' q"
      by (auto simp: tileLoop.simps[of td longType buf "end" tile p] andThen_Ret)
    from 1(2) have "nonEmptyLayers
        (if length_L layer \<noteq> 0 then setLayer tile (name layer) layer else tile)"
      by (simp add: nonEmptyLayers_setLayer)
    from "1.IH"[OF True a b c this d] show ?thesis .
  next
    case False
    with 1(2,3) show ?thesis by (simp add: tileLoop.simps[of td longType buf "end" tile p])
  qed
qed

section \<open>The cursor before a call\<close>

lemma perform_any_cursor: "fst (perform buf c p) = fst (perform buf c p')"
  by (cases c) (auto simp: loadGeometry_def bbox_def feature_def split: res.splits)

section \<open>The turns of the geometry loops\<close>

lemma count_bound: "int (unat (drop_bit 3 (w :: 32 word))) < 2 ^ 29"
proof -
  have "unat (drop_bit 3 w) = unat w div 2 ^ 3"
    by (simp add: drop_bit_eq_div unat_div)
  moreover have "unat w < 2 ^ 32" using unsigned_less[of w] by simp
  ultimately have "unat (drop_bit 3 w) < 2 ^ 29" by simp
  then have "int (unat (drop_bit 3 w)) < int (2 ^ 29)" by (simp only: of_nat_less_iff)
  then show ?thesis by simp
qed

lemma geomStep_count:
  assumes "geomStep buf st p = Ret st' q" and "length_G st < 2 ^ 29"
  shows "p \<le> q \<and> length_G st' < 2 ^ 29 \<and>
         ((p < q \<and> length_G st' \<le> 2 ^ 29 - 2) \<or>
          (0 < length_G st \<and> length_G st' = length_G st - 1))"
proof -
  from assms(1) obtain st1 q1 where c: "geomCommand buf st p = Ret st1 q1"
    and a: "geomApply buf st1 q1 = Ret st' q"
    by (auto simp: geomStep_def andThen_Ret)
  from geomApply_le[OF a] have a': "q1 \<le> q" "length_G st' = length_G st1 - 1" by simp_all
  show ?thesis
  proof (cases "length_G st \<le> 0")
    case True
    with c obtain w where "uint32 buf p = Ret w q1"
      and "length_G st1 = int (unat (drop_bit 3 w))"
      by (auto simp: geomCommand_def andThen_Ret)
    then have "p < q1" "length_G st1 < 2 ^ 29"
      using count_bound[of w] by (auto dest: uint32_adv)
    with a' show ?thesis by simp
  next
    case False
    with c have "q1 = p" "st1 = st" by (auto simp: geomCommand_def)
    with a' False assms(2) show ?thesis by auto
  qed
qed

lemma geomLoop_turns:
  "length_G st < 2 ^ 29 \<Longrightarrow> (end - p) * 2 ^ 29 + nat (length_G st) < n \<Longrightarrow>
     turns n (geomStep buf) end st p = Some (geomLoop buf end st p)"
proof (induction n arbitrary: st p)
  case 0
  then show ?case by simp
next
  case (Suc n)
  show ?case
  proof (cases "p < end")
    case False
    then show ?thesis by (simp add: geomLoop.simps[of buf "end" st p])
  next
    case True
    show ?thesis
    proof (cases "geomStep buf st p")
      case (Threw e q)
      with True show ?thesis by (simp add: geomLoop.simps[of buf "end" st p] andThen_def)
    next
      case (Ret st' q)
      from geomStep_count[OF Ret Suc.prems(1)]
      have b: "p \<le> q" "length_G st' < 2 ^ 29"
        and d: "(p < q \<and> length_G st' \<le> 2 ^ 29 - 2) \<or>
                (0 < length_G st \<and> length_G st' = length_G st - 1)" by simp_all
      have "(end - q) * 2 ^ 29 + nat (length_G st') < n"
      proof (rule disjE[OF d])
        assume h: "p < q \<and> length_G st' \<le> 2 ^ 29 - 2"
        then have "end - q \<le> end - p - 1" using True by arith
        then have "(end - q) * 2 ^ 29 \<le> (end - p - 1) * (2 ^ 29 :: nat)" by simp
        also have "\<dots> = (end - p) * 2 ^ 29 - 2 ^ 29" by (simp add: diff_mult_distrib)
        finally have "(end - q) * 2 ^ 29 + 2 ^ 29 \<le> (end - p) * (2 ^ 29 :: nat)"
          using True by (simp add: diff_mult_distrib) 
        moreover from h have "nat (length_G st') < 2 ^ 29" by (simp, arith)
        ultimately show ?thesis using Suc.prems(2) by arith
      next
        assume h: "0 < length_G st \<and> length_G st' = length_G st - 1"
        from b(1) have "(end - q) * 2 ^ 29 \<le> (end - p) * (2 ^ 29 :: nat)" by simp
        moreover from h have "nat (length_G st') < nat (length_G st)" by arith
        ultimately show ?thesis using Suc.prems(2) by arith
      qed
      from Suc.IH[OF b(2) this] Ret True show ?thesis
        by (simp add: geomLoop.simps[of buf "end" st p] andThen_def)
    qed
  qed
qed

lemma bboxStep_count:
  assumes "bboxStep buf st p = Ret st' q" and "count st < 2 ^ 29"
  shows "p \<le> q \<and> count st' < 2 ^ 29 \<and>
         ((p < q \<and> count st' \<le> 2 ^ 29 - 2) \<or>
          (0 < count st \<and> count st' = count st - 1))"
proof -
  from assms(1) obtain st1 q1 where c: "bboxCommand buf st p = Ret st1 q1"
    and a: "bboxApply buf st1 q1 = Ret st' q"
    by (auto simp: bboxStep_def andThen_Ret)
  from bboxApply_le[OF a] have a': "q1 \<le> q" "count st' = count st1 - 1" by simp_all
  show ?thesis
  proof (cases "count st \<le> 0")
    case True
    with c obtain w where "uint32 buf p = Ret w q1"
      and "count st1 = int (unat (drop_bit 3 w))"
      by (auto simp: bboxCommand_def andThen_Ret)
    then have "p < q1" "count st1 < 2 ^ 29"
      using count_bound[of w] by (auto dest: uint32_adv)
    with a' show ?thesis by simp
  next
    case False
    with c have "q1 = p" "st1 = st" by (auto simp: bboxCommand_def)
    with a' False assms(2) show ?thesis by auto
  qed
qed

lemma bboxLoop_turns:
  "count st < 2 ^ 29 \<Longrightarrow> (end - p) * 2 ^ 29 + nat (count st) < n \<Longrightarrow>
     turns n (bboxStep buf) end st p = Some (bboxLoop buf end st p)"
proof (induction n arbitrary: st p)
  case 0
  then show ?case by simp
next
  case (Suc n)
  show ?case
  proof (cases "p < end")
    case False
    then show ?thesis by (simp add: bboxLoop.simps[of buf "end" st p])
  next
    case True
    show ?thesis
    proof (cases "bboxStep buf st p")
      case (Threw e q)
      with True show ?thesis by (simp add: bboxLoop.simps[of buf "end" st p] andThen_def)
    next
      case (Ret st' q)
      from bboxStep_count[OF Ret Suc.prems(1)]
      have b: "p \<le> q" "count st' < 2 ^ 29"
        and d: "(p < q \<and> count st' \<le> 2 ^ 29 - 2) \<or>
                (0 < count st \<and> count st' = count st - 1)" by simp_all
      have "(end - q) * 2 ^ 29 + nat (count st') < n"
      proof (rule disjE[OF d])
        assume h: "p < q \<and> count st' \<le> 2 ^ 29 - 2"
        then have "end - q \<le> end - p - 1" using True by arith
        then have "(end - q) * 2 ^ 29 \<le> (end - p - 1) * (2 ^ 29 :: nat)" by simp
        also have "\<dots> = (end - p) * 2 ^ 29 - 2 ^ 29" by (simp add: diff_mult_distrib)
        finally have "(end - q) * 2 ^ 29 + 2 ^ 29 \<le> (end - p) * (2 ^ 29 :: nat)"
          using True by (simp add: diff_mult_distrib) 
        moreover from h have "nat (count st') < 2 ^ 29" by (simp, arith)
        ultimately show ?thesis using Suc.prems(2) by arith
      next
        assume h: "0 < count st \<and> count st' = count st - 1"
        from b(1) have "(end - q) * 2 ^ 29 \<le> (end - p) * (2 ^ 29 :: nat)" by simp
        moreover from h have "nat (count st') < nat (count st)" by arith
        ultimately show ?thesis using Suc.prems(2) by arith
      qed
      from Suc.IH[OF b(2) this] Ret True show ?thesis
        by (simp add: bboxLoop.simps[of buf "end" st p] andThen_def)
    qed
  qed
qed

section \<open>Concrete inputs\<close>

text \<open>A text decoder for ASCII: it rejects a byte above 127.\<close>

definition asciiDecoder :: "byte list \<Rightarrow> string option" where
  "asciiDecoder bs =
     (if list_all (\<lambda>b. b < 0x80) bs then Some (map (\<lambda>b. char_of (unat b)) bs) else None)"

text \<open>
  Three rings: a triangle of positive area, the same triangle the other way round, and a
  segment walked there and back, of area zero.
\<close>

definition outerRing :: "Point list" where
  "outerRing = [Point 0 0, Point 4 0, Point 0 4, Point 0 0]"

definition holeRing :: "Point list" where
  "holeRing = [Point 0 0, Point 0 4, Point 4 0, Point 0 0]"



lemma signedArea_holeRing: "signedArea holeRing = Fin (- 16)"
  by code_simp


lemma signedArea_exact_outerRing:
  "shoelace outerRing = 16 \<and> signedArea outerRing = Fin (shoelace outerRing)"
proof -
  have "shoelace outerRing = 16" by code_simp
  moreover have "signedArea outerRing = Fin (shoelace outerRing)"
    by (rule signedArea_exact[of outerRing 4]) (simp_all add: outerRing_def)
  ultimately show ?thesis by simp
qed









text \<open>
  A tile of one layer with one feature: the feature has an empty geometry and no type
  field, so its type is \<^verbatim>\<open>UNKNOWN\<close>.
\<close>

definition unknownTile :: buffer where
  "unknownTile = [0x1A, 0x04, 0x12, 0x02, 0x22, 0x00]"

definition unknownLayer :: Layer where
  "unknownLayer =
     \<lparr>name = [], version = 0, extent = 0, length_L = 1,
      featureOffsets = [3], keys = [], values_L = []\<rparr>"

definition unknownFeature :: Feature where
  "unknownFeature =
     \<lparr>id_F = None, type_F = 0,
      properties = \<lparr>entries = Mapping.empty, nullProto = False\<rparr>,
      geometryOffset = 5, extent_F = 0\<rparr>"

lemma unknownTile_decodes:
  "newVectorTile asciiDecoder LNumber unknownTile =
     Ret \<lparr>layers = Mapping.update [] unknownLayer Mapping.empty, layersProto = None\<rparr> 6"
  by code_simp

lemma unknownFeature_decodes: "feature unknownTile unknownLayer 0 6 = Ret unknownFeature 6"
  by code_simp

text \<open>
  A tile of two layers. Layer \<^verbatim>\<open>a\<close> has version 2, extent 4096, the key \<^verbatim>\<open>k\<close>, the
  value \<^verbatim>\<open>true\<close> and one feature: id 7, the property \<^verbatim>\<open>k = true\<close>, type
  \<^verbatim>\<open>POLYGON\<close>, and as geometry the triangle \<open>outerRing\<close>. Layer \<^verbatim>\<open>b\<close> has no
  feature.
\<close>

definition demoTile :: buffer where
  "demoTile =
     [0x1A, 0x24,
        0x78, 0x02,
        0x0A, 0x01, 0x61,
        0x28, 0x80, 0x20,
        0x1A, 0x01, 0x6B,
        0x22, 0x02, 0x38, 0x01,
        0x12, 0x13,
          0x08, 0x07,
          0x12, 0x02, 0x00, 0x00,
          0x18, 0x03,
          0x22, 0x09, 0x09, 0x00, 0x00, 0x12, 0x08, 0x00, 0x07, 0x08, 0x0F,
      0x1A, 0x03,
        0x0A, 0x01, 0x62]"

definition demoLayer :: Layer where
  "demoLayer =
     \<lparr>name = ''a'', version = 2, extent = 4096, length_L = 1,
      featureOffsets = [18], keys = [''k''], values_L = [VBool True]\<rparr>"

definition demoFeature :: Feature where
  "demoFeature =
     \<lparr>id_F = Some ''7'', type_F = 3,
      properties = \<lparr>entries = Mapping.update ''k'' (VBool True) Mapping.empty,
                     nullProto = False\<rparr>,
      geometryOffset = 28, extent_F = 4096\<rparr>"

lemma demoTile_decodes:
  "newVectorTile asciiDecoder LNumber demoTile =
     Ret \<lparr>layers = Mapping.update ''a'' demoLayer Mapping.empty, layersProto = None\<rparr> 43"
  by code_simp

lemma demoLayer_decodes: "newLayer asciiDecoder LNumber demoTile 38 2 = Ret demoLayer 38"
  by code_simp

lemma demoFeature_decodes: "feature demoTile demoLayer 0 43 = Ret demoFeature 38"
  by code_simp

lemma demoFeature_geometry: "loadGeometry demoTile demoFeature 38 = Ret [outerRing] 38"
  by code_simp

text \<open>
  A tile of one layer with one feature, whose field 2 announces five bytes of index
  pairs where the buffer ends.
\<close>

definition truncTile :: buffer where
  "truncTile = [0x1A, 0x04, 0x12, 0x02, 0x12, 0x05]"

definition truncLayer :: Layer where
  "truncLayer =
     \<lparr>name = [], version = 0, extent = 0, length_L = 1,
      featureOffsets = [3], keys = [], values_L = []\<rparr>"

text \<open>
  A tile of one layer with the key \<^verbatim>\<open>k\<close>, the value \<^verbatim>\<open>true\<close> and one feature, whose
  field 2 holds the index pairs (0, 0) and (1, 1); the tables have one entry each.
\<close>

definition pairsTile :: buffer where
  "pairsTile =
     [0x1A, 0x0F,
        0x12, 0x06,
          0x12, 0x04, 0x00, 0x00, 0x01, 0x01,
        0x1A, 0x01, 0x6B,
        0x22, 0x02, 0x38, 0x01]"

definition pairsLayer :: Layer where
  "pairsLayer =
     \<lparr>name = [], version = 0, extent = 0, length_L = 1,
      featureOffsets = [3], keys = [''k''], values_L = [VBool True]\<rparr>"

definition pairsFeature :: Feature where
  "pairsFeature =
     \<lparr>id_F = None, type_F = 0,
      properties =
        \<lparr>entries = Mapping.update ''undefined'' VUndefined
                     (Mapping.update ''k'' (VBool True) Mapping.empty),
         nullProto = False\<rparr>,
      geometryOffset = 0, extent_F = 0\<rparr>"

lemma pairsTile_decodes:
  "newVectorTile asciiDecoder LNumber pairsTile =
     Ret \<lparr>layers = Mapping.update [] pairsLayer Mapping.empty, layersProto = None\<rparr> 17"
  by code_simp

lemma pairsFeature_decodes: "feature pairsTile pairsLayer 0 17 = Ret pairsFeature 10"
  by code_simp

text \<open>
  A tile of one layer with one feature, whose geometry is the command integer
  \<^verbatim>\<open>0x17\<close>, \<^verbatim>\<open>ClosePath\<close> with repeat count 2, and the command integer 0.
\<close>

definition repeatTile :: buffer where
  "repeatTile = [0x1A, 0x06, 0x12, 0x04, 0x22, 0x02, 0x17, 0x00]"

definition repeatLayer :: Layer where
  "repeatLayer =
     \<lparr>name = [], version = 0, extent = 0, length_L = 1,
      featureOffsets = [3], keys = [], values_L = []\<rparr>"

definition repeatFeature :: Feature where
  "repeatFeature =
     \<lparr>id_F = None, type_F = 0,
      properties = \<lparr>entries = Mapping.empty, nullProto = False\<rparr>,
      geometryOffset = 5, extent_F = 0\<rparr>"

section \<open>Claims about the properties of a feature\<close>

text \<open>
  Claim C1, as amended. In the decoding of a feature by \<^verbatim>\<open>Layer.feature\<close>, a pair with
  a key index outside the key table or a value index outside the value table does not
  make the decoding fail: whether the call returns or throws, the error thrown and the
  cursor left are the same for every content of the two tables. The pair is stored as any
  other is, under the key \<^verbatim>\<open>undefined\<close> when the key index is out of range and with
  the value \<^verbatim>\<open>undefined\<close> when the value index is, and the loop goes on with the next
  pair.
\<close>

theorem index_out_of_range:
  "outcome (feature buf (layer\<lparr>keys := ks, values_L := vs\<rparr>) index c) =
     outcome (feature buf layer index c) \<and>
   (p < e \<and> uint32 buf p = Ret ki q \<and> uint32 buf q = Ret vi q' \<longrightarrow>
      propertiesLoop buf ks vs e props p =
        propertiesLoop buf ks vs e
          (setProperty props
             (if unat ki < length ks then ks ! unat ki else ''undefined'')
             (if unat vi < length vs then vs ! unat vi else VUndefined)) q')"
proof (intro conjI impI)
  show "outcome (feature buf (layer\<lparr>keys := ks, values_L := vs\<rparr>) index c) =
        outcome (feature buf layer index c)"
    unfolding feature_def newFeature_def
    by (auto intro!: outcome_andThen featureLoop_outcome)
next
  assume "p < e \<and> uint32 buf p = Ret ki q \<and> uint32 buf q = Ret vi q'"
  then show "propertiesLoop buf ks vs e props p =
      propertiesLoop buf ks vs e
        (setProperty props
           (if unat ki < length ks then ks ! unat ki else ''undefined'')
           (if unat vi < length vs then vs ! unat vi else VUndefined)) q'"
    by (simp add: propertiesLoop.simps[of buf ks vs e props p] andThen_def
          keyAt_def valueAt_def)
qed

theorem index_out_of_range_witness:
  "outcome (feature pairsTile (pairsLayer\<lparr>keys := [], values_L := []\<rparr>) 0 17) = (None, 10) \<and>
   outcome (feature pairsTile pairsLayer 0 17) = (None, 10) \<and>
   (8::nat) < 10 \<and> uint32 pairsTile 8 = Ret 1 9 \<and> uint32 pairsTile 9 = Ret 1 10 \<and>
   \<not> unat (1 :: 32 word) < length [''k''] \<and> \<not> unat (1 :: 32 word) < length [VBool True] \<and>
   propertiesLoop pairsTile [''k''] [VBool True] 10
     \<lparr>entries = Mapping.update ''k'' (VBool True) Mapping.empty, nullProto = False\<rparr> 8 =
     Ret \<lparr>entries = Mapping.update ''undefined'' VUndefined
                      (Mapping.update ''k'' (VBool True) Mapping.empty),
          nullProto = False\<rparr> 10"
proof -
  have o: "outcome (feature pairsTile pairsLayer 0 17) = (None, 10)"
    by (simp add: pairsFeature_decodes outcome_def)
  have r: "uint32 pairsTile 8 = Ret 1 9" "uint32 pairsTile 9 = Ret 1 10"
    by code_simp+
  have l: "propertiesLoop pairsTile [''k''] [VBool True] 10
     (setProperty
        \<lparr>entries = Mapping.update ''k'' (VBool True) Mapping.empty, nullProto = False\<rparr>
        ''undefined'' VUndefined) 10 =
     Ret \<lparr>entries = Mapping.update ''undefined'' VUndefined
                      (Mapping.update ''k'' (VBool True) Mapping.empty),
          nullProto = False\<rparr> 10"
    by (simp add: propertiesLoop.simps[of _ _ _ 10 _ 10] setProperty_def)
  from index_out_of_range[where buf = pairsTile and layer = pairsLayer and ks = "[]"
         and vs = "[]" and index = 0 and c = 17]
  have "outcome (feature pairsTile (pairsLayer\<lparr>keys := [], values_L := []\<rparr>) 0 17) =
        outcome (feature pairsTile pairsLayer 0 17)" by simp
  moreover
  from index_out_of_range[where buf = pairsTile and ks = "[''k'']" and vs = "[VBool True]"
         and p = 8 and e = 10 and ki = 1 and q = 9 and vi = 1 and q' = 10
         and props = "\<lparr>entries = Mapping.update ''k'' (VBool True) Mapping.empty,
                         nullProto = False\<rparr>"] r
  have "propertiesLoop pairsTile [''k''] [VBool True] 10
     \<lparr>entries = Mapping.update ''k'' (VBool True) Mapping.empty, nullProto = False\<rparr> 8 =
     propertiesLoop pairsTile [''k''] [VBool True] 10
     (setProperty
        \<lparr>entries = Mapping.update ''k'' (VBool True) Mapping.empty, nullProto = False\<rparr>
        ''undefined'' VUndefined) 10" by simp
  ultimately show ?thesis using o r l by simp
qed

text \<open>
  The claim as it is written fails: the second pair of the feature has both indices out
  of range, and the call returns a dictionary that holds the first pair and the second.
\<close>

theorem index_out_of_range_counterexample:
  "newVectorTile asciiDecoder LNumber pairsTile =
     Ret \<lparr>layers = Mapping.update [] pairsLayer Mapping.empty, layersProto = None\<rparr> 17 \<and>
   length (keys pairsLayer) = 1 \<and> length (values_L pairsLayer) = 1 \<and>
   uint32 pairsTile 8 = Ret 1 9 \<and> uint32 pairsTile 9 = Ret 1 10 \<and>
   feature pairsTile pairsLayer 0 17 = Ret pairsFeature 10 \<and>
   Mapping.lookup (entries (properties pairsFeature)) ''k'' = Some (VBool True) \<and>
   Mapping.lookup (entries (properties pairsFeature)) ''undefined'' = Some VUndefined"
  by code_simp

section \<open>Claims about ring classification\<close>




text \<open>
  Claim C3. An input of at most one ring is returned wrapped as a single polygon; the
  result does not depend on the area of the ring, which may be zero or negative.
\<close>

theorem classifyRings_at_most_one:
  "length rings \<le> 1 \<Longrightarrow> classifyRings rings = [rings]"
  by (simp add: classifyRings_def)

theorem classifyRings_at_most_one_witness:
  "length [holeRing] \<le> 1 \<and> numLess (signedArea holeRing) (Fin 0) \<and>
   classifyRings [holeRing] = [[holeRing]]"
proof -
  have h: "length [holeRing] \<le> 1" by simp
  from classifyRings_at_most_one[OF h] h show ?thesis by (simp add: signedArea_holeRing)
qed



section \<open>Claims about the features of a layer\<close>

text \<open>
  Claim C5, as amended. For a layer built by the constructor and every integer index,
  \<^verbatim>\<open>feature(index)\<close> throws the out-of-bounds error when the index is below 0 or not
  below \<^verbatim>\<open>length\<close>. For an index in the range it never throws that error: it sets the
  cursor to the recorded offset and returns what the constructor of \<^verbatim>\<open>Feature\<close> makes
  of the bytes there, or throws the reader's error when these do not decode.
\<close>

theorem feature_index:
  assumes "newLayer td longType buf e p0 = Ret layer q0"
  shows "(index < 0 \<or> int (length_L layer) \<le> index \<longrightarrow>
            feature buf layer index p = Threw OutOfBounds p) \<and>
         (0 \<le> index \<and> index < int (length_L layer) \<longrightarrow>
            feature buf layer index p =
              andThen (uint32 buf (featureOffsets layer ! nat index)) (\<lambda>len q.
                newFeature buf (unat len + q) (keys layer) (values_L layer) (extent layer) q) \<and>
            (\<forall>err q. feature buf layer index p = Threw err q \<longrightarrow> readerError err))"
proof -
  from assms have len: "length_L layer = length (featureOffsets layer)"
    by (rule newLayer_length)
  show ?thesis
  proof (intro conjI impI allI)
    assume "index < 0 \<or> int (length_L layer) \<le> index"
    with len show "feature buf layer index p = Threw OutOfBounds p"
      by (auto simp: feature_def)
  next
    assume "0 \<le> index \<and> index < int (length_L layer)"
    with len show "feature buf layer index p =
        andThen (uint32 buf (featureOffsets layer ! nat index)) (\<lambda>len q.
          newFeature buf (unat len + q) (keys layer) (values_L layer) (extent layer) q)"
      by (auto simp: feature_def)
  next
    fix err q
    assume "0 \<le> index \<and> index < int (length_L layer)"
      and "feature buf layer index p = Threw err q"
    with len show "readerError err"
      by (auto simp: feature_def andThen_Threw newFeature_def
               dest: uint32_Threw featureLoop_Threw)
  qed
qed

theorem feature_index_witness:
  "newLayer asciiDecoder LNumber demoTile 38 2 = Ret demoLayer 38 \<and> length_L demoLayer = 1 \<and>
   feature demoTile demoLayer (- 1) 43 = Threw OutOfBounds 43 \<and>
   feature demoTile demoLayer 1 43 = Threw OutOfBounds 43 \<and>
   feature demoTile demoLayer 1000000000 43 = Threw OutOfBounds 43 \<and>
   feature demoTile demoLayer 0 43 = Ret demoFeature 38"
proof -
  have l: "length_L demoLayer = 1" by (simp add: demoLayer_def)
  from feature_index[OF demoLayer_decodes, of "- 1" 43]
       feature_index[OF demoLayer_decodes, of 1 43]
       feature_index[OF demoLayer_decodes, of 1000000000 43]
       feature_index[OF demoLayer_decodes, of 0 43]
       l demoLayer_decodes demoFeature_decodes
  show ?thesis by simp
qed

text \<open>
  The claim as it is written fails: index 0 is in the range of a layer of one feature,
  and the call throws, because the bytes of the feature do not decode.
\<close>

theorem feature_index_counterexample:
  "newVectorTile asciiDecoder LNumber truncTile =
     Ret \<lparr>layers = Mapping.update [] truncLayer Mapping.empty, layersProto = None\<rparr> 6 \<and>
   length_L truncLayer = 1 \<and>
   feature truncTile truncLayer 0 6 = Threw RangeError 7"
  by code_simp

section \<open>Claims about the typed access\<close>

text \<open>Whether a call returned a value other than \<^verbatim>\<open>null\<close>.\<close>

definition nonNull :: "'a option res \<Rightarrow> bool" where
  "nonNull r = (case r of Ret (Some v) q \<Rightarrow> True | _ \<Rightarrow> False)"

text \<open>
  Claim C6, as amended. \<^verbatim>\<open>asLines\<close> returns \<^verbatim>\<open>null\<close> unless the type is
  \<^verbatim>\<open>LINESTRING\<close>, \<^verbatim>\<open>asPolygons\<close> returns \<^verbatim>\<open>null\<close> unless it is \<^verbatim>\<open>POLYGON\<close>, and
  \<^verbatim>\<open>asPoints\<close> returns \<^verbatim>\<open>null\<close> when the type is not \<^verbatim>\<open>POINT\<close> and the geometry
  decodes. At most one of the three returns a value other than \<^verbatim>\<open>null\<close>: exactly one
  when the type is \<^verbatim>\<open>POINT\<close>, \<^verbatim>\<open>LINESTRING\<close> or \<^verbatim>\<open>POLYGON\<close> and the geometry decodes,
  none when the type is any other code.
\<close>

theorem typed_access:
  "(type_F f \<noteq> LINESTRING \<longrightarrow> asLines buf f p = Ret None p) \<and>
   (type_F f \<noteq> POLYGON \<longrightarrow> asPolygons buf f p = Ret None p) \<and>
   (type_F f \<noteq> POINT \<longrightarrow> \<not> nonNull (asPoints buf f p)) \<and>
   (\<forall>ls q. type_F f \<noteq> POINT \<and> loadGeometry buf f p = Ret ls q \<longrightarrow>
      asPoints buf f p = Ret None q) \<and>
   \<not> (nonNull (asPoints buf f p) \<and> nonNull (asLines buf f p)) \<and>
   \<not> (nonNull (asPoints buf f p) \<and> nonNull (asPolygons buf f p)) \<and>
   \<not> (nonNull (asLines buf f p) \<and> nonNull (asPolygons buf f p)) \<and>
   (\<forall>ls q. loadGeometry buf f p = Ret ls q \<and>
      (type_F f = POINT \<or> type_F f = LINESTRING \<or> type_F f = POLYGON) \<longrightarrow>
      nonNull (asPoints buf f p) \<or> nonNull (asLines buf f p) \<or>
      nonNull (asPolygons buf f p)) \<and>
   (type_F f \<noteq> POINT \<and> type_F f \<noteq> LINESTRING \<and> type_F f \<noteq> POLYGON \<longrightarrow>
      \<not> nonNull (asPoints buf f p) \<and> \<not> nonNull (asLines buf f p) \<and>
      \<not> nonNull (asPolygons buf f p))"
  by (cases "loadGeometry buf f p")
     (auto simp: asPoints_def asLines_def asPolygons_def nonNull_def andThen_def Let_def
        POINT_def LINESTRING_def POLYGON_def)

theorem typed_access_witness:
  "type_F demoFeature = POLYGON \<and>
   loadGeometry demoTile demoFeature 38 = Ret [outerRing] 38 \<and>
   asPoints demoTile demoFeature 38 = Ret None 38 \<and>
   asLines demoTile demoFeature 38 = Ret None 38 \<and>
   asPolygons demoTile demoFeature 38 = Ret (Some [[outerRing]]) 38 \<and>
   nonNull (asPolygons demoTile demoFeature 38) \<and>
   type_F unknownFeature = UNKNOWN \<and>
   \<not> nonNull (asPoints unknownTile unknownFeature 6) \<and>
   \<not> nonNull (asLines unknownTile unknownFeature 6) \<and>
   \<not> nonNull (asPolygons unknownTile unknownFeature 6)"
proof -
  have t: "type_F demoFeature = POLYGON" "type_F unknownFeature = UNKNOWN"
    by (simp_all add: demoFeature_def unknownFeature_def POLYGON_def UNKNOWN_def)
  have pg: "asPolygons demoTile demoFeature 38 = Ret (Some [[outerRing]]) 38"
    by (simp add: asPolygons_def t demoFeature_geometry andThen_def classifyRings_def)
  have u: "type_F unknownFeature \<noteq> POINT \<and> type_F unknownFeature \<noteq> LINESTRING \<and>
           type_F unknownFeature \<noteq> POLYGON"
    by (simp add: unknownFeature_def POLYGON_def POINT_def LINESTRING_def)
  have d: "type_F demoFeature \<noteq> POINT" "type_F demoFeature \<noteq> LINESTRING"
    by (simp_all add: demoFeature_def POINT_def LINESTRING_def)
  from typed_access[of demoFeature demoTile 38] d demoFeature_geometry
  have "asLines demoTile demoFeature 38 = Ret None 38"
    and "asPoints demoTile demoFeature 38 = Ret None 38" by blast+
  moreover from typed_access[of unknownFeature unknownTile 6] u
  have "\<not> nonNull (asPoints unknownTile unknownFeature 6) \<and>
        \<not> nonNull (asLines unknownTile unknownFeature 6) \<and>
        \<not> nonNull (asPolygons unknownTile unknownFeature 6)" by blast
  ultimately show ?thesis using t pg demoFeature_geometry by (simp add: nonNull_def)
qed

text \<open>
  The claim as it is written fails: for a feature of type \<^verbatim>\<open>UNKNOWN\<close> all three
  calls return \<^verbatim>\<open>null\<close>.
\<close>

theorem typed_access_counterexample:
  "feature unknownTile unknownLayer 0 6 = Ret unknownFeature 6 \<and>
   type_F unknownFeature = UNKNOWN \<and>
   asPoints unknownTile unknownFeature 6 = Ret None 6 \<and>
   asLines unknownTile unknownFeature 6 = Ret None 6 \<and>
   asPolygons unknownTile unknownFeature 6 = Ret None 6"
  by code_simp

section \<open>Claims about repeated calls\<close>

text \<open>
  Claim C7. \<^verbatim>\<open>loadGeometry()\<close>, and \<^verbatim>\<open>bbox()\<close>, called twice on a feature give the
  same result both times, whatever calls of \<^verbatim>\<open>loadGeometry\<close>, \<^verbatim>\<open>bbox\<close> and
  \<^verbatim>\<open>feature\<close> on the same buffer come between the two, and wherever the cursor was
  before the first.
\<close>

theorem repeated_access:
  "fst (perform buf (LoadGeometry f)
          (performAll buf cs (snd (perform buf (LoadGeometry f) p)))) =
     fst (perform buf (LoadGeometry f) p) \<and>
   fst (perform buf (Bbox f) (performAll buf cs (snd (perform buf (Bbox f) p)))) =
     fst (perform buf (Bbox f) p)"
  using perform_any_cursor by blast

text \<open>
  In the witness, the call of \<^verbatim>\<open>bbox\<close> between the two is on a feature without a
  geometry field: its geometry offset is 0, and the call leaves the cursor at 28.
\<close>

theorem repeated_access_witness:
  "perform demoTile (LoadGeometry demoFeature) 0 = (Lines [outerRing], 38) \<and>
   performAll demoTile
     [Bbox (demoFeature\<lparr>geometryOffset := 0\<rparr>), GetFeature demoLayer 7] 38 = 28 \<and>
   fst (perform demoTile (LoadGeometry demoFeature) 28) = Lines [outerRing] \<and>
   perform demoTile (Bbox demoFeature) 0 = (Box (0, 0, 4, 4), 38) \<and>
   fst (perform demoTile (Bbox demoFeature) 28) = Box (0, 0, 4, 4)"
proof -
  have a: "perform demoTile (LoadGeometry demoFeature) 0 = (Lines [outerRing], 38)"
    "performAll demoTile
       [Bbox (demoFeature\<lparr>geometryOffset := 0\<rparr>), GetFeature demoLayer 7] 38 = 28"
    "perform demoTile (Bbox demoFeature) 0 = (Box (0, 0, 4, 4), 38)"
    by code_simp+
  from repeated_access[of demoTile demoFeature
         "[Bbox (demoFeature\<lparr>geometryOffset := 0\<rparr>), GetFeature demoLayer 7]" 0] a
  show ?thesis by simp
qed

section \<open>Claims about the tile\<close>

text \<open>
  Claim C8. Every layer that the constructor of the tile stores in \<^verbatim>\<open>layers\<close> has
  \<^verbatim>\<open>length >= 1\<close>, whatever the buffer: a layer without features is not stored. (The
  same holds for a layer of the name \<^verbatim>\<open>__proto__\<close>, which the assignment makes the
  prototype of \<^verbatim>\<open>layers\<close>.)
\<close>

theorem layers_non_empty:
  assumes "newVectorTile td longType buf = Ret tile q"
  shows "(\<forall>key layer. Mapping.lookup (layers tile) key = Some layer \<longrightarrow> 1 \<le> length_L layer) \<and>
         (\<forall>layer. layersProto tile = Some layer \<longrightarrow> 1 \<le> length_L layer)"
proof -
  have "nonEmptyLayers \<lparr>layers = Mapping.empty, layersProto = None\<rparr>"
    by (simp add: nonEmptyLayers_def)
  from tileLoop_nonEmptyLayers[OF this assms[unfolded newVectorTile_def]]
  show ?thesis by (simp add: nonEmptyLayers_def)
qed

theorem layers_non_empty_witness:
  "newVectorTile asciiDecoder LNumber demoTile =
     Ret \<lparr>layers = Mapping.update ''a'' demoLayer Mapping.empty, layersProto = None\<rparr> 43 \<and>
   Mapping.lookup (Mapping.update ''a'' demoLayer Mapping.empty) ''a'' = Some demoLayer \<and>
   1 \<le> length_L demoLayer \<and>
   Mapping.lookup (Mapping.update ''a'' demoLayer Mapping.empty) ''b'' = None"
proof -
  have a: "Mapping.lookup (Mapping.update ''a'' demoLayer Mapping.empty) ''a'' = Some demoLayer"
    by (simp add: Mapping.lookup_update)
  have b: "Mapping.lookup (Mapping.update ''a'' demoLayer Mapping.empty) ''b'' = None"
    by (simp add: Mapping.lookup_update' Mapping.lookup_empty)
  from layers_non_empty[OF demoTile_decodes]
  have "\<forall>key layer. Mapping.lookup (Mapping.update ''a'' demoLayer Mapping.empty) key =
          Some layer \<longrightarrow> 1 \<le> length_L layer"
    by simp
  then have "Mapping.lookup (Mapping.update ''a'' demoLayer Mapping.empty) ''a'' =
          Some demoLayer \<longrightarrow> 1 \<le> length_L demoLayer"
    by blast
  with a have "1 \<le> length_L demoLayer" by blast
  with a b demoTile_decodes show ?thesis by simp
qed

section \<open>Claims about termination\<close>

text \<open>
  Claim C9, as amended. Every loop of the decoder runs while the cursor is below an end
  offset fixed before the loop, and every turn that does not throw makes progress. In the
  loops over a tile, a layer, a value, a feature and the index pairs of a feature, a turn
  moves the cursor forward. In the loops of \<^verbatim>\<open>loadGeometry\<close> and \<^verbatim>\<open>bbox\<close> a turn
  never moves the cursor back: it moves it forward when it reads a command integer or a
  pair of coordinates, and otherwise (the command is \<^verbatim>\<open>ClosePath\<close> or not a known code,
  and the repeat count is not used up) it leaves the cursor and takes one off the repeat
  count, which is positive. So the pair of the distance to the end offset and the repeat
  count goes down in the lexicographic order with every turn, and the decoding ends for
  every buffer: the loops are defined by recursion on these measures, and the loops of
  \<^verbatim>\<open>loadGeometry\<close> and \<^verbatim>\<open>bbox\<close>, started with a repeat count below \<open>2 ^ 29\<close>, end
  within \<open>(end - pos) * 2 ^ 29 + count + 1\<close> turns.
\<close>

theorem decode_loops_progress:
  "(uint32 buf p = Ret v q \<and> uint32 buf q = Ret len q' \<and>
      newLayer td longType buf (unat len + q') q' = Ret layer q'' \<longrightarrow> p < q'') \<and>
   (tag buf p = Ret ft q \<and>
      layerField td longType buf lay (fst ft) (snd ft) q = Ret lay' q' \<longrightarrow> p < q') \<and>
   (tag buf p = Ret ft q \<and> valueField td longType buf (fst ft) q = Ret val q' \<longrightarrow> p < q') \<and>
   (tag buf p = Ret ft q \<and>
      featureField buf ks vs f (fst ft) (snd ft) q = Ret f' q' \<longrightarrow> p < q') \<and>
   (uint32 buf p = Ret ki q \<and> uint32 buf q = Ret vi q' \<longrightarrow> p < q') \<and>
   (geomStep buf st p = Ret st' q \<longrightarrow>
      p < q \<or> (p = q \<and> 0 < length_G st \<and> length_G st' = length_G st - 1)) \<and>
   (bboxStep buf bst p = Ret bst' q \<longrightarrow>
      p < q \<or> (p = q \<and> 0 < count bst \<and> count bst' = count bst - 1)) \<and>
   (length_G st < 2 ^ 29 \<and> (e - p) * 2 ^ 29 + nat (length_G st) < n \<longrightarrow>
      turns n (geomStep buf) e st p = Some (geomLoop buf e st p)) \<and>
   (count bst < 2 ^ 29 \<and> (e - p) * 2 ^ 29 + nat (count bst) < n \<longrightarrow>
      turns n (bboxStep buf) e bst p = Some (bboxLoop buf e bst p))"
proof (intro conjI impI)
  assume "uint32 buf p = Ret v q \<and> uint32 buf q = Ret len q' \<and>
      newLayer td longType buf (unat len + q') q' = Ret layer q''"
  then have "p < q \<and> q < q' \<and> q' \<le> q''" by (auto dest: uint32_adv newLayer_le)
  then show "p < q''" by simp
next
  assume "tag buf p = Ret ft q \<and>
      layerField td longType buf lay (fst ft) (snd ft) q = Ret lay' q'"
  then have "p < q \<and> q \<le> q'" by (auto dest: tag_adv layerField_le)
  then show "p < q'" by simp
next
  assume "tag buf p = Ret ft q \<and> valueField td longType buf (fst ft) q = Ret val q'"
  then have "p < q \<and> q \<le> q'" by (auto dest: tag_adv valueField_le)
  then show "p < q'" by simp
next
  assume "tag buf p = Ret ft q \<and> featureField buf ks vs f (fst ft) (snd ft) q = Ret f' q'"
  then have "p < q \<and> q \<le> q'" by (auto dest: tag_adv featureField_le)
  then show "p < q'" by simp
next
  assume "uint32 buf p = Ret ki q \<and> uint32 buf q = Ret vi q'"
  then have "p < q \<and> q < q'" by (auto dest: uint32_adv)
  then show "p < q'" by simp
next
  assume "geomStep buf st p = Ret st' q"
  then show "p < q \<or> (p = q \<and> 0 < length_G st \<and> length_G st' = length_G st - 1)"
    by (rule geomStep_measure)
next
  assume "bboxStep buf bst p = Ret bst' q"
  then show "p < q \<or> (p = q \<and> 0 < count bst \<and> count bst' = count bst - 1)"
    by (rule bboxStep_measure)
next
  assume "length_G st < 2 ^ 29 \<and> (e - p) * 2 ^ 29 + nat (length_G st) < n"
  then show "turns n (geomStep buf) e st p = Some (geomLoop buf e st p)"
    by (simp add: geomLoop_turns)
next
  assume "count bst < 2 ^ 29 \<and> (e - p) * 2 ^ 29 + nat (count bst) < n"
  then show "turns n (bboxStep buf) e bst p = Some (bboxLoop buf e bst p)"
    by (simp add: bboxLoop_turns)
qed

theorem decode_loops_progress_witness:
  "uint32 demoTile 0 = Ret 26 1 \<and> uint32 demoTile 1 = Ret 36 2 \<and>
   newLayer asciiDecoder LNumber demoTile (unat (36 :: 32 word) + 2) 2 = Ret demoLayer 38 \<and>
   (0::nat) < 38 \<and>
   tag demoTile 2 = Ret (15, 0) 3 \<and>
   layerField asciiDecoder LNumber demoTile
     \<lparr>name = [], version = 0, extent = 0, length_L = 0,
      featureOffsets = [], keys = [], values_L = []\<rparr> 15 0 3 =
     Ret \<lparr>name = [], version = 2, extent = 0, length_L = 0,
          featureOffsets = [], keys = [], values_L = []\<rparr> 4 \<and>
   (2::nat) < 4 \<and>
   tag demoTile 15 = Ret (7, 0) 16 \<and>
   valueField asciiDecoder LNumber demoTile 7 16 = Ret (VBool True) 17 \<and> (15::nat) < 17 \<and>
   tag demoTile 19 = Ret (1, 0) 20 \<and>
   featureField demoTile [''k''] [VBool True]
     \<lparr>id_F = None, type_F = 0,
      properties = \<lparr>entries = Mapping.empty, nullProto = False\<rparr>,
      geometryOffset = 0, extent_F = 4096\<rparr> 1 0 20 =
     Ret \<lparr>id_F = Some ''7'', type_F = 0,
          properties = \<lparr>entries = Mapping.empty, nullProto = False\<rparr>,
          geometryOffset = 0, extent_F = 4096\<rparr> 21 \<and>
   (19::nat) < 21 \<and>
   uint32 demoTile 23 = Ret 0 24 \<and> uint32 demoTile 24 = Ret 0 25 \<and> (23::nat) < 25 \<and>
   geomStep demoTile
     \<lparr>command = 1, length_G = 0, gx = 0, gy = 0, lines = [], line = None\<rparr> 29 =
     Ret \<lparr>command = 1, length_G = 0, gx = 0, gy = 0, lines = [],
          line = Some [Point 0 0]\<rparr> 32 \<and>
   (29::nat) < 32 \<and>
   geomStep repeatTile
     \<lparr>command = 7, length_G = 1, gx = 0, gy = 0, lines = [], line = None\<rparr> 7 =
     Ret \<lparr>command = 7, length_G = 0, gx = 0, gy = 0, lines = [], line = None\<rparr> 7 \<and>
   bboxStep demoTile
     \<lparr>command_B = 0, count = 0, bx = 0, by_B = 0,
      xMin = MAX_SAFE_INTEGER, xMax = MIN_SAFE_INTEGER,
      yMin = MAX_SAFE_INTEGER, yMax = MIN_SAFE_INTEGER\<rparr> 29 =
     Ret \<lparr>command_B = 1, count = 0, bx = 0, by_B = 0,
          xMin = 0, xMax = 0, yMin = 0, yMax = 0\<rparr> 32 \<and>
   turns 4831838209 (geomStep demoTile) 38
     \<lparr>command = 1, length_G = 0, gx = 0, gy = 0, lines = [], line = None\<rparr> 29 =
     Some (geomLoop demoTile 38
       \<lparr>command = 1, length_G = 0, gx = 0, gy = 0, lines = [], line = None\<rparr> 29) \<and>
   turns 4831838209 (bboxStep demoTile) 38
     \<lparr>command_B = 0, count = 0, bx = 0, by_B = 0,
      xMin = MAX_SAFE_INTEGER, xMax = MIN_SAFE_INTEGER,
      yMin = MAX_SAFE_INTEGER, yMax = MIN_SAFE_INTEGER\<rparr> 29 =
     Some (bboxLoop demoTile 38
       \<lparr>command_B = 0, count = 0, bx = 0, by_B = 0,
        xMin = MAX_SAFE_INTEGER, xMax = MIN_SAFE_INTEGER,
        yMin = MAX_SAFE_INTEGER, yMax = MIN_SAFE_INTEGER\<rparr> 29)"
proof -
  have a: "uint32 demoTile 0 = Ret 26 1" "uint32 demoTile 1 = Ret 36 2"
    "newLayer asciiDecoder LNumber demoTile (unat (36 :: 32 word) + 2) 2 = Ret demoLayer 38"
    by code_simp+
  have b: "tag demoTile 2 = Ret (15, 0) 3"
    "layerField asciiDecoder LNumber demoTile
       \<lparr>name = [], version = 0, extent = 0, length_L = 0,
        featureOffsets = [], keys = [], values_L = []\<rparr> 15 0 3 =
     Ret \<lparr>name = [], version = 2, extent = 0, length_L = 0,
          featureOffsets = [], keys = [], values_L = []\<rparr> 4"
    by code_simp+
  have c: "tag demoTile 15 = Ret (7, 0) 16"
    "valueField asciiDecoder LNumber demoTile 7 16 = Ret (VBool True) 17"
    by code_simp+
  have d: "tag demoTile 19 = Ret (1, 0) 20"
    "featureField demoTile [''k''] [VBool True]
       \<lparr>id_F = None, type_F = 0,
        properties = \<lparr>entries = Mapping.empty, nullProto = False\<rparr>,
        geometryOffset = 0, extent_F = 4096\<rparr> 1 0 20 =
     Ret \<lparr>id_F = Some ''7'', type_F = 0,
          properties = \<lparr>entries = Mapping.empty, nullProto = False\<rparr>,
          geometryOffset = 0, extent_F = 4096\<rparr> 21"
    by code_simp+
  have e: "uint32 demoTile 23 = Ret 0 24" "uint32 demoTile 24 = Ret 0 25"
    by code_simp+
  have g: "geomStep demoTile
       \<lparr>command = 1, length_G = 0, gx = 0, gy = 0, lines = [], line = None\<rparr> 29 =
     Ret \<lparr>command = 1, length_G = 0, gx = 0, gy = 0, lines = [],
          line = Some [Point 0 0]\<rparr> 32"
    "geomStep repeatTile
       \<lparr>command = 7, length_G = 1, gx = 0, gy = 0, lines = [], line = None\<rparr> 7 =
     Ret \<lparr>command = 7, length_G = 0, gx = 0, gy = 0, lines = [], line = None\<rparr> 7"
    by code_simp+
  have h: "bboxStep demoTile
       \<lparr>command_B = 0, count = 0, bx = 0, by_B = 0,
        xMin = MAX_SAFE_INTEGER, xMax = MIN_SAFE_INTEGER,
        yMin = MAX_SAFE_INTEGER, yMax = MIN_SAFE_INTEGER\<rparr> 29 =
     Ret \<lparr>command_B = 1, count = 0, bx = 0, by_B = 0,
          xMin = 0, xMax = 0, yMin = 0, yMax = 0\<rparr> 32"
    by code_simp
  from decode_loops_progress[where buf = demoTile and p = 0 and v = 26 and q = 1
         and len = 36 and q' = 2 and td = asciiDecoder and longType = LNumber
         and layer = demoLayer and q'' = 38] a
  have "(0::nat) < 38" by blast
  moreover
  from decode_loops_progress[where buf = demoTile and p = 2 and ft = "(15, 0)" and q = 3
         and td = asciiDecoder and longType = LNumber and q' = 4
         and lay = "\<lparr>name = [], version = 0, extent = 0, length_L = 0,
                         featureOffsets = [], keys = [], values_L = []\<rparr>"
         and lay' = "\<lparr>name = [], version = 2, extent = 0, length_L = 0,
                         featureOffsets = [], keys = [], values_L = []\<rparr>"] b
  have "(2::nat) < 4" by simp
  moreover
  from decode_loops_progress[where buf = demoTile and p = 15 and ft = "(7, 0)" and q = 16
         and td = asciiDecoder and longType = LNumber and q' = 17 and val = "VBool True"] c
  have "(15::nat) < 17" by simp
  moreover
  from decode_loops_progress[where buf = demoTile and p = 19 and ft = "(1, 0)" and q = 20
         and q' = 21 and ks = "[''k'']" and vs = "[VBool True]"
         and f = "\<lparr>id_F = None, type_F = 0,
                    properties = \<lparr>entries = Mapping.empty, nullProto = False\<rparr>,
                    geometryOffset = 0, extent_F = 4096\<rparr>"
         and f' = "\<lparr>id_F = Some ''7'', type_F = 0,
                    properties = \<lparr>entries = Mapping.empty, nullProto = False\<rparr>,
                    geometryOffset = 0, extent_F = 4096\<rparr>"] d
  have "(19::nat) < 21" by simp
  moreover
  from decode_loops_progress[where buf = demoTile and p = 23 and ki = 0 and q = 24
         and vi = 0 and q' = 25] e
  have "(23::nat) < 25" by simp
  moreover
  from decode_loops_progress[where buf = demoTile and p = 29 and q = 32
         and st = "\<lparr>command = 1, length_G = 0, gx = 0, gy = 0, lines = [], line = None\<rparr>"
         and st' = "\<lparr>command = 1, length_G = 0, gx = 0, gy = 0, lines = [],
                      line = Some [Point 0 0]\<rparr>"] g
  have "(29::nat) < 32" by simp
  moreover
  from decode_loops_progress[where buf = demoTile and e = 38 and p = 29 and n = 4831838209
         and st = "\<lparr>command = 1, length_G = 0, gx = 0, gy = 0, lines = [], line = None\<rparr>"]
  have "turns 4831838209 (geomStep demoTile) 38
     \<lparr>command = 1, length_G = 0, gx = 0, gy = 0, lines = [], line = None\<rparr> 29 =
     Some (geomLoop demoTile 38
       \<lparr>command = 1, length_G = 0, gx = 0, gy = 0, lines = [], line = None\<rparr> 29)"
    by simp
  moreover
  from decode_loops_progress[where buf = demoTile and e = 38 and p = 29 and n = 4831838209
         and bst = "\<lparr>command_B = 0, count = 0, bx = 0, by_B = 0,
                      xMin = MAX_SAFE_INTEGER, xMax = MIN_SAFE_INTEGER,
                      yMin = MAX_SAFE_INTEGER, yMax = MIN_SAFE_INTEGER\<rparr>"]
  have "turns 4831838209 (bboxStep demoTile) 38
     \<lparr>command_B = 0, count = 0, bx = 0, by_B = 0,
      xMin = MAX_SAFE_INTEGER, xMax = MIN_SAFE_INTEGER,
      yMin = MAX_SAFE_INTEGER, yMax = MIN_SAFE_INTEGER\<rparr> 29 =
     Some (bboxLoop demoTile 38
       \<lparr>command_B = 0, count = 0, bx = 0, by_B = 0,
        xMin = MAX_SAFE_INTEGER, xMax = MIN_SAFE_INTEGER,
        yMin = MAX_SAFE_INTEGER, yMax = MIN_SAFE_INTEGER\<rparr> 29)"
    by simp
  ultimately show ?thesis using a b c d e g h by simp
qed

text \<open>
  The claim as it is written fails: the cursor does not move forward on every path. In
  the geometry of this feature the first turn reads the command integer and the second
  turn reads nothing: the cursor stays at 7. The loop ends all the same.
\<close>

theorem decode_loops_progress_counterexample:
  "feature repeatTile repeatLayer 0 8 = Ret repeatFeature 8 \<and>
   uint32 repeatTile (geometryOffset repeatFeature) = Ret 2 6 \<and>
   geomStep repeatTile
     \<lparr>command = 1, length_G = 0, gx = 0, gy = 0, lines = [], line = None\<rparr> 6 =
     Ret \<lparr>command = 7, length_G = 1, gx = 0, gy = 0, lines = [], line = None\<rparr> 7 \<and>
   geomStep repeatTile
     \<lparr>command = 7, length_G = 1, gx = 0, gy = 0, lines = [], line = None\<rparr> 7 =
     Ret \<lparr>command = 7, length_G = 0, gx = 0, gy = 0, lines = [], line = None\<rparr> 7 \<and>
   loadGeometry repeatTile repeatFeature 8 = Ret [] 8"
  by code_simp

section \<open>Claims about GeoJSON\<close>

text \<open>
  Claim C10. For a feature whose type is not 1, 2 or 3, \<^verbatim>\<open>toGeoJSON\<close> throws a
  \<^verbatim>\<open>TypeError\<close>: no case of the switch assigns \<^verbatim>\<open>coordinates\<close>, and the test of
  \<^verbatim>\<open>coordinates.length\<close> reads a field of \<^verbatim>\<open>undefined\<close>.
\<close>

theorem toGeoJSON_unknown_type:
  "type_F f \<noteq> POINT \<Longrightarrow> type_F f \<noteq> LINESTRING \<Longrightarrow> type_F f \<noteq> POLYGON \<Longrightarrow>
     toGeoJSON proj buf f p = Threw TypeError p"
  by (simp add: toGeoJSON_def finishGeoJSON_def POLYGON_def)

theorem toGeoJSON_unknown_type_witness:
  "feature unknownTile unknownLayer 0 6 = Ret unknownFeature 6 \<and>
   type_F unknownFeature \<noteq> POINT \<and> type_F unknownFeature \<noteq> LINESTRING \<and>
   type_F unknownFeature \<noteq> POLYGON \<and>
   toGeoJSON (\<lambda>pt. (px pt, py pt)) unknownTile unknownFeature 6 = Threw TypeError 6"
proof -
  have t: "type_F unknownFeature \<noteq> POINT" "type_F unknownFeature \<noteq> LINESTRING"
    "type_F unknownFeature \<noteq> POLYGON"
    by (simp_all add: unknownFeature_def POINT_def LINESTRING_def POLYGON_def)
  from toGeoJSON_unknown_type[OF t] t unknownFeature_decodes show ?thesis by simp
qed

end
